theory Spec2Isabelle
  imports
    Complex_Main
    "HOL-Library.Char_ord"
    "HOL-Library.List_Lexorder"
    "HOL-Library.Product_Lexorder"
    "HOL-Library.Multiset"
begin

section \<open>Data model of \<open>sec_tools.py\<close>\<close>

text \<open>
  Python strings are modelled as \<open>string\<close> (the index text is decoded as latin-1, one
  character per byte). Python floats are modelled as doubles with rounded addition (see
  the section on floating point). A cell that holds \<open>None\<close> is \<open>None\<close>; in a float64
  column pandas reads \<open>None\<close> and NaN alike as missing. A DataFrame is the list of its
  rows, each row a record of the columns the code names.
\<close>

section \<open>Floating point\<close>

text \<open>
  A Python float, a float64 of pandas: a finite value, an infinity or NaN. A finite value is
  modelled by the real number it stands for (the two zeros are not told apart; the values
  that enter are those \<open>float\<close> returns). The result of an addition is rounded to the
  nearest double, ties to the even significand, as IEEE 754 has it: 53 significant bits,
  least exponent -1074 for the unit in the last place, overflow to an infinity from
  \<open>2^1024 - 2^970\<close> on.
\<close>

datatype double = Finite real | PInf | NInf | NaN

definition round_half_even :: "real \<Rightarrow> int" where
  "round_half_even y =
     (let f = \<lfloor>y\<rfloor>; d = y - of_int f
      in if d < 1 / 2 then f else if 1 / 2 < d then f + 1 else if even f then f else f + 1)"

text \<open>
  The exponent of the unit in the last place of the doubles next to a real of size \<open>a\<close>:
  the least \<open>q\<close> from -1074 on with \<open>a < 2^(q + 53)\<close>, at most 971.
\<close>

function least_exp :: "real \<Rightarrow> int \<Rightarrow> int" where
  "least_exp a q = (if 971 \<le> q \<or> a < 2 powi (q + 53) then q else least_exp a (q + 1))"
  by pat_completeness auto
termination
  by (relation "measure (\<lambda>(a, q). nat (971 - q))") auto

declare least_exp.simps [simp del]

definition ulp_exp :: "real \<Rightarrow> int" where
  "ulp_exp x = least_exp \<bar>x\<bar> (- 1074)"

definition round_double :: "real \<Rightarrow> double" where
  "round_double x =
     (let q = ulp_exp x;
          r = of_int (round_half_even (x / 2 powi q)) * 2 powi q
      in if 2 powi 1024 \<le> \<bar>r\<bar> then (if 0 < x then PInf else NInf) else Finite r)"

fun dneg :: "double \<Rightarrow> double" where
  "dneg (Finite x) = Finite (- x)"
| "dneg PInf = NInf"
| "dneg NInf = PInf"
| "dneg NaN = NaN"

fun dadd :: "double \<Rightarrow> double \<Rightarrow> double" where
  "dadd (Finite x) (Finite y) = round_double (x + y)"
| "dadd NaN b = NaN"
| "dadd a NaN = NaN"
| "dadd PInf NInf = NaN"
| "dadd NInf PInf = NaN"
| "dadd PInf b = PInf"
| "dadd a PInf = PInf"
| "dadd NInf b = NInf"
| "dadd a NInf = NInf"

definition dsub :: "double \<Rightarrow> double \<Rightarrow> double" where
  "dsub a b = dadd a (dneg b)"

text \<open>
  The sum of a group in pandas (\<open>group_sum\<close>, float64): the values are added in row order
  with Kahan compensation,
  \<^verbatim>\<open>y = val - compensation; t = sumx + y; compensation = t - sumx - y; sumx = t\<close>,
  a compensation that became NaN being reset to 0.
\<close>

definition kahan_step :: "double \<times> double \<Rightarrow> double \<Rightarrow> double \<times> double" where
  "kahan_step acc val =
     (case acc of (sumx, compensation) \<Rightarrow>
        let y = dsub val compensation;
            t = dadd sumx y;
            c = dsub (dsub t sumx) y
        in (t, if c = NaN then Finite 0 else c))"

definition kahan_sum :: "double list \<Rightarrow> double" where
  "kahan_sum vs = fst (foldl kahan_step (Finite 0, Finite 0) vs)"

text \<open>
  For comparison, the sum without compensation, each value added to the running sum in
  row order. The aggregation does not use it; it shows that what is proved of the order of
  the rows does not hang on the compensation.
\<close>

definition plain_sum :: "double list \<Rightarrow> double" where
  "plain_sum vs = foldl dadd (Finite 0) vs"

section \<open>Rows and tables\<close>

text \<open>
  A transaction record, the dictionary \<open>parse_form4_xml\<close> appends to \<open>tx_rows\<close>.
  The type parameter is the type of the \<open>date\<close> column: the raw text after parsing, a
  timestamp after \<open>pd.to_datetime\<close>.
\<close>

record 'd transaction =
  issuerSymbol :: string
  issuerName :: string
  transactionCode :: string
  shares :: "double option"
  price :: "double option"
  date :: "'d option"
  ownership :: "string option"

text \<open>
  A row of the daily index, columns \<open>CIK | Company Name | Form Type | Date Filed | Filename\<close>.
  A cell is \<open>None\<close> where pandas padded a row that had fewer fields than columns.
\<close>

record filing =
  CIK :: "string option"
  Company_Name :: "string option"
  Form_Type :: "string option"
  Date_Filed :: "string option"
  Filename :: "string option"

text \<open>The same row with the \<open>date\<close> column that \<open>list_form4_filings_for_range\<close> adds.\<close>

record dated_filing = filing +
  day :: string

text \<open>A row of the issuer aggregate, after \<open>reset_index\<close>.\<close>

record issuer_aggregate =
  agg_issuerSymbol :: string
  nTransactions :: nat
  totalShares :: double
  buys :: double
  sells :: double

text \<open>A DataFrame whose column labels matter: the labels and the rows.\<close>

record 'r frame =
  columns :: "string list"
  rows :: "'r list"

section \<open>Aggregation by issuer\<close>

text \<open>
  \<open>df.groupby("issuerSymbol")\<close> with the default \<open>sort=True\<close>: the group keys are the
  distinct symbols in ascending order.
\<close>

definition group_keys :: "'d transaction list \<Rightarrow> string list" where
  "group_keys txs = sort (remdups (map issuerSymbol txs))"

text \<open>The value of the \<open>shares\<close> cell of a row where it is not missing.\<close>

definition share_value :: "'d transaction \<Rightarrow> double option" where
  "share_value t = (case shares t of None \<Rightarrow> None | Some v \<Rightarrow> if v = NaN then None else Some v)"

text \<open>The non-missing values of the \<open>shares\<close> column within one group, in row order.\<close>

definition group_shares :: "'d transaction list \<Rightarrow> string \<Rightarrow> double list" where
  "group_shares txs k = List.map_filter share_value (filter (\<lambda>t. issuerSymbol t = k) txs)"

text \<open>
  \<open>groupby(...)["shares"].sum(min_count=1)\<close>: missing values are skipped, the values
  present are added as pandas adds them, and a group with no value present sums to NaN.
\<close>

definition groupby_sum :: "'d transaction list \<Rightarrow> (string \<times> double) list" where
  "groupby_sum txs =
     map (\<lambda>k. (k, let vs = group_shares txs k in if vs = [] then NaN else kahan_sum vs))
       (group_keys txs)"

text \<open>\<open>groupby(...)["shares"].count()\<close>: the number of non-missing values of the group.\<close>

definition groupby_count :: "'d transaction list \<Rightarrow> (string \<times> nat) list" where
  "groupby_count txs = map (\<lambda>k. (k, length (group_shares txs k))) (group_keys txs)"

text \<open>
  The index of \<open>pd.concat([...], axis=1)\<close>: the labels of the first series, then the labels
  of each later series that are not there yet, in order of first appearance.
\<close>

definition union_index :: "string list list \<Rightarrow> string list" where
  "union_index ixs = rev (remdups (rev (concat ixs)))"

text \<open>
  One row of the concatenated frame after \<open>fillna(0)\<close>: a label absent from a series, or
  NaN in it, becomes 0.
\<close>

definition fillna0 :: "double option \<Rightarrow> double" where
  "fillna0 v = (case v of None \<Rightarrow> Finite 0 | Some x \<Rightarrow> if x = NaN then Finite 0 else x)"

definition concat_fillna ::
  "(string \<times> nat) list \<Rightarrow> (string \<times> double) list \<Rightarrow> (string \<times> double) list \<Rightarrow>
   (string \<times> double) list \<Rightarrow> issuer_aggregate list" where
  "concat_fillna n tot bs ss =
     map (\<lambda>k. \<lparr> agg_issuerSymbol = k,
                nTransactions = (case map_of n k of Some c \<Rightarrow> c | None \<Rightarrow> 0),
                totalShares = fillna0 (map_of tot k),
                buys = fillna0 (map_of bs k),
                sells = fillna0 (map_of ss k) \<rparr>)
       (union_index [map fst n, map fst tot, map fst bs, map fst ss])"

text \<open>
  \<open>sort_values(["nTransactions","totalShares"], ascending=False)\<close>: descending on the
  pair, rows with equal keys keeping their order. \<open>desc_rank\<close> places a double in the
  descending order of floats: plus infinity first, the finite values from large to small,
  minus infinity, and NaN last.
\<close>

definition desc_rank :: "double \<Rightarrow> int \<times> real" where
  "desc_rank v = (case v of PInf \<Rightarrow> (0, 0) | Finite x \<Rightarrow> (1, - x) | NInf \<Rightarrow> (2, 0) | NaN \<Rightarrow> (3, 0))"

definition sort_values_desc :: "issuer_aggregate list \<Rightarrow> issuer_aggregate list" where
  "sort_values_desc rs = sort_key (\<lambda>r. (- int (nTransactions r), desc_rank (totalShares r))) rs"

definition agg_columns :: "string list" where
  "agg_columns = [''issuerSymbol'', ''nTransactions'', ''totalShares'', ''buys'', ''sells'']"

definition aggregate_by_issuer :: "'d transaction list \<Rightarrow> issuer_aggregate frame" where
  "aggregate_by_issuer transactions =
     (if transactions = [] then \<lparr> columns = agg_columns, rows = [] \<rparr>
      else
        let bs = groupby_sum (filter (\<lambda>t. transactionCode t = ''P'') transactions);
            ss = groupby_sum (filter (\<lambda>t. transactionCode t = ''S'') transactions);
            tot = groupby_sum transactions;
            n = groupby_count transactions;
            out = sort_values_desc (concat_fillna n tot bs ss)
        in \<lparr> columns = agg_columns, rows = out \<rparr>)"

section \<open>Weekly baseline\<close>

text \<open>
  \<open>groupby("date")["Filename"].count()\<close>: one entry per distinct collection date, counting
  the rows of that date whose \<open>Filename\<close> is present.
\<close>

definition filename_counts :: "dated_filing list \<Rightarrow> (string \<times> nat) list" where
  "filename_counts fs =
     map (\<lambda>d. (d, length (filter (\<lambda>r. day r = d \<and> Filename r \<noteq> None) fs)))
       (sort (remdups (map day fs)))"

text \<open>
  \<open>float(counts.mean())\<close>: the quotient of two whole numbers, the sum of the counts and
  their number. The value is given as the exact quotient; the one rounding of the float
  division is left out.
\<close>

definition weekly_baseline :: "dated_filing list \<Rightarrow> real" where
  "weekly_baseline transactions_week =
     (if transactions_week = [] then 0
      else
        let counts = filename_counts transactions_week
        in if counts \<noteq> [] then real (sum_list (map snd counts)) / real (length counts) else 0)"

section \<open>Errors, the outside world and text helpers\<close>

text \<open>The exceptions the code can meet, as values.\<close>

datatype py_error =
  HTTPError | ValueError | TypeError | AttributeError | ParseError | OverflowError

text \<open>
  A \<open>datetime\<close> is modelled by the proleptic Gregorian ordinal of its date (the code
  compares \<open>.date()\<close> values, adds whole days and formats the date only). The dates of
  Python run from ordinal 1 (0001-01-01) to \<open>max_ordinal\<close> (9999-12-31); adding a day to
  the last one raises \<open>OverflowError\<close>.

  What the code obtains from outside itself is a parameter of the model:
  \<^item> \<open>http_get\<close>: the outcome of \<open>_http_get\<close> on a URL, the body or the exception raised;
  \<^item> \<open>year\<close>, \<open>month\<close>: the calendar reading \<open>dt.year\<close> and \<open>dt.month\<close> of an ordinal;
  \<^item> \<open>strftime\<close>: \<open>dt.strftime(format)\<close>, which is the platform's (it pads the year of
    \<open>%Y\<close> on some platforms and not on others);
  \<^item> \<open>json_loads\<close>: \<open>json.loads(body.decode("utf-8"))\<close>, the value or the exception;
  \<^item> \<open>xml_fromstring\<close>: \<open>ET.fromstring\<close>, the root element or the exception;
  \<^item> \<open>to_float\<close>: \<open>float(s)\<close>, \<open>None\<close> where it raises;
  \<^item> \<open>to_datetime\<close>: \<open>pd.to_datetime(..., errors="coerce")\<close> on one cell, \<open>None\<close>
    for \<open>NaT\<close>.
\<close>

text \<open>A JSON value as \<open>json.loads\<close> returns it; an object lists the items of the dict.\<close>

datatype json =
    JNull
  | JBool bool
  | JNum real
  | JStr string
  | JArr "json list"
  | JObj "(string \<times> json) list"

text \<open>An element of an \<open>ElementTree\<close>: its tag, its text and its child elements.\<close>

datatype xml = Elem (tag: string) (elem_text: "string option") (children: "xml list")

type_synonym timestamp = int

record world =
  http_get :: "string \<Rightarrow> py_error + string"
  year :: "int \<Rightarrow> nat"
  month :: "int \<Rightarrow> nat"
  strftime :: "string \<Rightarrow> int \<Rightarrow> string"
  json_loads :: "string \<Rightarrow> py_error + json"
  xml_fromstring :: "string \<Rightarrow> py_error + xml"
  to_float :: "string \<Rightarrow> double option"
  to_datetime :: "string \<Rightarrow> timestamp option"

definition max_ordinal :: int where
  "max_ordinal = 3652059"

text \<open>Decimal rendering of a natural number, as \<open>str\<close> and the f-string do.\<close>

fun digit_char :: "nat \<Rightarrow> char" where
  "digit_char n = char_of (48 + n mod 10)"

function str_nat :: "nat \<Rightarrow> string" where
  "str_nat n = (if n < 10 then [digit_char n] else str_nat (n div 10) @ [digit_char n])"
  by pat_completeness auto
termination
  by (relation "measure id") auto

declare str_nat.simps [simp del]

text \<open>\<open>str.zfill(width)\<close>: zeros on the left up to the width, after a leading sign.\<close>

definition zfill :: "nat \<Rightarrow> string \<Rightarrow> string" where
  "zfill width s =
     (if width \<le> length s then s
      else case s of
             [] \<Rightarrow> replicate width CHR ''0''
           | c # cs \<Rightarrow>
               if c = CHR ''+'' \<or> c = CHR ''-''
               then c # replicate (width - length s) CHR ''0'' @ cs
               else replicate (width - length s) CHR ''0'' @ s)"

text \<open>\<open>str(cell)\<close> of a cell that holds a string or \<open>None\<close>.\<close>

definition str_cell :: "string option \<Rightarrow> string" where
  "str_cell c = (case c of None \<Rightarrow> ''None'' | Some s \<Rightarrow> s)"

definition startswith :: "string \<Rightarrow> string \<Rightarrow> bool" where
  "startswith s p = (take (length p) s = p)"

definition endswith :: "string \<Rightarrow> string \<Rightarrow> bool" where
  "endswith s p = (length p \<le> length s \<and> drop (length s - length p) s = p)"

text \<open>
  \<open>str.splitlines()\<close> on latin-1 text: a line ends at LF, CR, CR LF, VT, FF, FS, GS, RS or
  NEL; the text after the last line end is a line only when it is not empty.
\<close>

definition is_linebreak :: "char \<Rightarrow> bool" where
  "is_linebreak c = (c \<in> set [CHR 0x0A, CHR 0x0B, CHR 0x0C, CHR 0x0D, CHR 0x1C, CHR 0x1D,
                               CHR 0x1E, CHR 0x85])"

fun splitlines_acc :: "string \<Rightarrow> string \<Rightarrow> string list" where
  "splitlines_acc cur [] = (if cur = [] then [] else [cur])"
| "splitlines_acc cur (c # cs) =
     (if c = CHR 0x0D then
        (case cs of
           [] \<Rightarrow> cur # splitlines_acc [] cs
         | d # ds \<Rightarrow> if d = CHR 0x0A then cur # splitlines_acc [] ds
                     else cur # splitlines_acc [] cs)
      else if is_linebreak c then cur # splitlines_acc [] cs
      else splitlines_acc (cur @ [c]) cs)"

definition splitlines :: "string \<Rightarrow> string list" where
  "splitlines s = splitlines_acc [] s"

text \<open>\<open>s.split(sep)\<close> for a one-character separator.\<close>

fun split_acc :: "char \<Rightarrow> string \<Rightarrow> string \<Rightarrow> string list" where
  "split_acc sep cur [] = [cur]"
| "split_acc sep cur (c # cs) =
     (if c = sep then cur # split_acc sep [] cs else split_acc sep (cur @ [c]) cs)"

definition split :: "char \<Rightarrow> string \<Rightarrow> string list" where
  "split sep s = split_acc sep [] s"

section \<open>The daily index\<close>

text \<open>\<open>_quarter_of\<close>, for a month from 1 to 12.\<close>

definition quarter_of :: "world \<Rightarrow> int \<Rightarrow> nat" where
  "quarter_of w dt = (month w dt - 1) div 3 + 1"

definition SEC_BASE :: string where
  "SEC_BASE = ''https://www.sec.gov''"

definition idx_url_for_date :: "world \<Rightarrow> int \<Rightarrow> string" where
  "idx_url_for_date w dt =
     (let q = quarter_of w dt;
          y = year w dt;
          ds = strftime w ''%Y%m%d'' dt
      in SEC_BASE @ ''/Archives/edgar/daily-index/'' @ str_nat y @ ''/Q'' @ str_nat q
           @ ''/master.'' @ ds @ ''.idx'')"

text \<open>
  The loop that finds where the data starts: \<open>start\<close> is one past the last line that
  begins with five dashes, and 0 when there is none.
\<close>

definition start_step :: "nat \<times> string \<Rightarrow> nat \<Rightarrow> nat" where
  "start_step p start = (case p of (i, line) \<Rightarrow> if startswith line ''-----'' then i + 1 else start)"

definition data_start :: "string list \<Rightarrow> nat" where
  "data_start lines = fold start_step (enumerate 0 lines) 0"

definition data_lines :: "string list \<Rightarrow> string list" where
  "data_lines lines = filter (\<lambda>ln. CHR ''|'' \<in> set ln) (drop (data_start lines) lines)"

text \<open>
  \<open>pd.DataFrame(rows, columns=[five labels])\<close> on a non-empty list of lists: pandas lays
  the rows out as wide as the longest one, padding the shorter with \<open>None\<close>, and raises
  \<open>ValueError\<close> when that width is not the number of labels.
\<close>

definition cell :: "string list \<Rightarrow> nat \<Rightarrow> string option" where
  "cell flds i = (if i < length flds then Some (flds ! i) else None)"

definition filing_of_fields :: "string list \<Rightarrow> filing" where
  "filing_of_fields flds =
     \<lparr> CIK = cell flds 0, Company_Name = cell flds 1, Form_Type = cell flds 2,
       Date_Filed = cell flds 3, Filename = cell flds 4 \<rparr>"

definition index_frame :: "string list list \<Rightarrow> py_error + filing list" where
  "index_frame rs =
     (if Max (set (map length rs)) \<noteq> 5 then Inl ValueError else Inr (map filing_of_fields rs))"

text \<open>The body of \<open>fetch_daily_master_idx\<close> after the download: the parse of the raw text.\<close>

definition parse_master_idx :: "string \<Rightarrow> py_error + filing list" where
  "parse_master_idx raw =
     (let lines = splitlines raw;
          rs = map (split CHR ''|'') (data_lines lines)
      in if rs = [] then Inr [] else index_frame rs)"

definition fetch_daily_master_idx :: "world \<Rightarrow> int \<Rightarrow> py_error + filing list" where
  "fetch_daily_master_idx w dt =
     (case http_get w (idx_url_for_date w dt) of
        Inl e \<Rightarrow> Inl e
      | Inr raw \<Rightarrow> parse_master_idx raw)"

section \<open>Collecting a range of days\<close>

text \<open>
  The \<open>while\<close> loop that lists the days from \<open>start_dt\<close> to \<open>end_dt\<close>. Each turn appends
  \<open>cur\<close> and adds a day to it, which raises \<open>OverflowError\<close> on the last date Python has;
  the loop stands outside any \<open>try\<close>.
\<close>

function date_range :: "int \<Rightarrow> int \<Rightarrow> py_error + int list" where
  "date_range cur end_dt =
     (if cur \<le> end_dt then
        (if max_ordinal \<le> cur then Inl OverflowError
         else case date_range (cur + 1) end_dt of
                Inl e \<Rightarrow> Inl e
              | Inr dates \<Rightarrow> Inr (cur # dates))
      else Inr [])"
  by pat_completeness auto
termination
  by (relation "measure (\<lambda>(cur, end_dt). nat (end_dt + 1 - cur))") auto

declare date_range.simps [simp del]

definition is_form4 :: "filing \<Rightarrow> bool" where
  "is_form4 r = (Form_Type r = Some ''4'' \<or> Form_Type r = Some ''4/A'')"

definition with_date :: "string \<Rightarrow> filing \<Rightarrow> dated_filing" where
  "with_date d r =
     \<lparr> CIK = CIK r, Company_Name = Company_Name r, Form_Type = Form_Type r,
       Date_Filed = Date_Filed r, Filename = Filename r, day = d \<rparr>"

text \<open>
  The \<open>for d in dates\<close> loop: a day whose fetch or parse raises is skipped, a day whose
  index has no row adds no frame, any other day adds its Form 4 rows stamped with the day.
\<close>

fun collect_frames :: "world \<Rightarrow> int list \<Rightarrow> dated_filing list list" where
  "collect_frames w [] = []"
| "collect_frames w (d # ds) =
     (case fetch_daily_master_idx w d of
        Inl e \<Rightarrow> collect_frames w ds
      | Inr df \<Rightarrow>
          if df \<noteq> [] then map (with_date (strftime w ''%Y-%m-%d'' d)) (filter is_form4 df)
                              # collect_frames w ds
          else collect_frames w ds)"

text \<open>\<open>out["CIK"].astype(str).str.zfill(10)\<close> on one row.\<close>

definition normalize_cik :: "dated_filing \<Rightarrow> dated_filing" where
  "normalize_cik r = r\<lparr> CIK := Some (zfill 10 (str_cell (CIK r))) \<rparr>"

definition list_form4_filings_for_range ::
  "world \<Rightarrow> int \<Rightarrow> int \<Rightarrow> py_error + dated_filing list" where
  "list_form4_filings_for_range w start_dt end_dt =
     (case date_range start_dt end_dt of
        Inl e \<Rightarrow> Inl e
      | Inr dates \<Rightarrow>
          let frames = collect_frames w dates
          in if frames \<noteq> [] then Inr (map normalize_cik (concat frames)) else Inr [])"

section \<open>Locating the Form 4 document\<close>

definition is_digit :: "char \<Rightarrow> bool" where
  "is_digit c = (CHR ''0'' \<le> c \<and> c \<le> CHR ''9'')"

text \<open>
  \<open>str.strip()\<close> and \<open>str.lower()\<close> on characters below 256: the white space of Python
  is TAB to CR, FS to US, space, NEL and NBSP; the capitals are A to Z and the accented
  ones of Latin-1.
\<close>

definition is_space :: "char \<Rightarrow> bool" where
  "is_space c =
     (let n = of_char c :: nat
      in (9 \<le> n \<and> n \<le> 13) \<or> (28 \<le> n \<and> n \<le> 32) \<or> n = 133 \<or> n = 160)"

definition strip :: "string \<Rightarrow> string" where
  "strip s = rev (dropWhile is_space (rev (dropWhile is_space s)))"

definition lower_char :: "char \<Rightarrow> char" where
  "lower_char c =
     (let n = of_char c :: nat
      in if (65 \<le> n \<and> n \<le> 90) \<or> (192 \<le> n \<and> n \<le> 222 \<and> n \<noteq> 215) then char_of (n + 32)
         else c)"

definition lower :: "string \<Rightarrow> string" where
  "lower s = map lower_char s"

text \<open>\<open>sub in s\<close> for strings.\<close>

fun contains :: "string \<Rightarrow> string \<Rightarrow> bool" where
  "contains [] sub = (sub = [])"
| "contains (c # cs) sub = (startswith (c # cs) sub \<or> contains cs sub)"

text \<open>
  Pieces of the two regular expressions. Each takes the text still to be matched and
  returns what it consumed and the rest, or \<open>None\<close> when it does not match there.
\<close>

definition lit :: "string \<Rightarrow> string \<Rightarrow> string option" where
  "lit p s = (if startswith s p then Some (drop (length p) s) else None)"

text \<open>\<open>\d{n}\<close>: exactly \<open>n\<close> digits.\<close>

definition digits_n :: "nat \<Rightarrow> string \<Rightarrow> (string \<times> string) option" where
  "digits_n n s =
     (if n \<le> length s \<and> list_all is_digit (take n s) then Some (take n s, drop n s) else None)"

text \<open>
  A greedy run \<open>C+\<close> of a character class whose follower in the pattern lies outside the
  class: the longest run, which must not be empty.
\<close>

definition run1 :: "(char \<Rightarrow> bool) \<Rightarrow> string \<Rightarrow> (string \<times> string) option" where
  "run1 cls s =
     (if takeWhile cls s = [] then None else Some (takeWhile cls s, dropWhile cls s))"

text \<open>\<open>edgar/data/(\d+)/(\d{10}-\d{2}-\d{6})\.txt\<close> at the head of \<open>s\<close>: the two groups.\<close>

definition match_strict :: "string \<Rightarrow> (string \<times> string) option" where
  "match_strict s =
     (case lit ''edgar/data/'' s of None \<Rightarrow> None | Some s1 \<Rightarrow>
      case run1 is_digit s1 of None \<Rightarrow> None | Some (g1, s2) \<Rightarrow>
      case lit ''/'' s2 of None \<Rightarrow> None | Some s3 \<Rightarrow>
      case digits_n 10 s3 of None \<Rightarrow> None | Some (a, s4) \<Rightarrow>
      case lit ''-'' s4 of None \<Rightarrow> None | Some s5 \<Rightarrow>
      case digits_n 2 s5 of None \<Rightarrow> None | Some (b, s6) \<Rightarrow>
      case lit ''-'' s6 of None \<Rightarrow> None | Some s7 \<Rightarrow>
      case digits_n 6 s7 of None \<Rightarrow> None | Some (c, s8) \<Rightarrow>
      case lit ''.txt'' s8 of None \<Rightarrow> None | Some s9 \<Rightarrow>
        Some (g1, a @ ''-'' @ b @ ''-'' @ c))"

text \<open>\<open>edgar/data/(\d+)/([0-9-]+)\.txt\<close> at the head of \<open>s\<close>.\<close>

definition match_loose :: "string \<Rightarrow> (string \<times> string) option" where
  "match_loose s =
     (case lit ''edgar/data/'' s of None \<Rightarrow> None | Some s1 \<Rightarrow>
      case run1 is_digit s1 of None \<Rightarrow> None | Some (g1, s2) \<Rightarrow>
      case lit ''/'' s2 of None \<Rightarrow> None | Some s3 \<Rightarrow>
      case run1 (\<lambda>c. is_digit c \<or> c = CHR ''-'') s3 of None \<Rightarrow> None | Some (g2, s4) \<Rightarrow>
      case lit ''.txt'' s4 of None \<Rightarrow> None | Some s5 \<Rightarrow>
        Some (g1, g2))"

text \<open>\<open>re.search\<close>: the match at the leftmost position where the pattern matches.\<close>

fun re_search :: "(string \<Rightarrow> 'a option) \<Rightarrow> string \<Rightarrow> 'a option" where
  "re_search m [] = m []"
| "re_search m (c # cs) = (case m (c # cs) of Some r \<Rightarrow> Some r | None \<Rightarrow> re_search m cs)"

definition remove_dashes :: "string \<Rightarrow> string" where
  "remove_dashes s = filter (\<lambda>c. c \<noteq> CHR ''-'') s"

text \<open>
  \<open>_extract_accession_and_dirpath\<close>. The cell may hold \<open>None\<close>, on which \<open>re.search\<close>
  raises \<open>TypeError\<close>; a name neither pattern matches raises \<open>ValueError\<close>.
\<close>

definition extract_accession_and_dirpath :: "string option \<Rightarrow> py_error + (string \<times> string)" where
  "extract_accession_and_dirpath filename =
     (case filename of
        None \<Rightarrow> Inl TypeError
      | Some fname \<Rightarrow>
          (case re_search match_strict fname of
             None \<Rightarrow>
               (case re_search match_loose fname of
                  None \<Rightarrow> Inl ValueError
                | Some (cik, g2) \<Rightarrow>
                    let accession = remove_dashes g2;
                        dirpath = SEC_BASE @ ''/Archives/edgar/data/'' @ cik @ ''/'' @ accession
                    in Inr (accession, dirpath))
           | Some (cik, g2) \<Rightarrow>
               let accession = remove_dashes g2;
                   dirpath = SEC_BASE @ ''/Archives/edgar/data/'' @ cik @ ''/'' @ accession
               in Inr (accession, dirpath)))"

text \<open>
  \<open>int(s)\<close> on a string: white space around, an optional sign, then decimal digits, where
  single underscores may separate digits. \<open>None\<close> where Python raises \<open>ValueError\<close>.
  The white space \<open>int\<close> skips is TAB to CR, space, NEL and NBSP; unlike \<open>str.strip\<close> it
  does not skip FS to US.
\<close>

definition is_int_space :: "char \<Rightarrow> bool" where
  "is_int_space c =
     (let n = of_char c :: nat
      in (9 \<le> n \<and> n \<le> 13) \<or> n = 32 \<or> n = 133 \<or> n = 160)"

fun int_digits :: "nat \<Rightarrow> string \<Rightarrow> nat option" where
  "int_digits acc [] = Some acc"
| "int_digits acc [c] = (if is_digit c then Some (acc * 10 + (of_char c - 48)) else None)"
| "int_digits acc (c # d # ds) =
     (if is_digit c then
        (if d = CHR ''_'' then
           (case ds of [] \<Rightarrow> None
            | e # es \<Rightarrow> if is_digit e then int_digits (acc * 10 + (of_char c - 48)) ds else None)
         else int_digits (acc * 10 + (of_char c - 48)) (d # ds))
      else None)"

definition py_int :: "string \<Rightarrow> int option" where
  "py_int s =
     (case rev (dropWhile is_int_space (rev (dropWhile is_int_space s))) of
        [] \<Rightarrow> None
      | c # cs \<Rightarrow>
          if c = CHR ''-'' then (if cs = [] then None else map_option (\<lambda>n. - int n) (int_digits 0 cs))
          else if c = CHR ''+'' then (if cs = [] then None else map_option int (int_digits 0 cs))
          else map_option int (int_digits 0 (c # cs)))"

definition str_int :: "int \<Rightarrow> string" where
  "str_int i = (if i < 0 then ''-'' @ str_nat (nat (- i)) else str_nat (nat i))"

definition dir_index_json_url :: "string \<Rightarrow> string \<Rightarrow> py_error + string" where
  "dir_index_json_url cik accession_no_dashes =
     (case py_int cik of
        None \<Rightarrow> Inl ValueError
      | Some i \<Rightarrow>
          Inr (SEC_BASE @ ''/Archives/edgar/data/'' @ str_int i @ ''/'' @ accession_no_dashes
                 @ ''/index.json''))"

text \<open>\<open>d.get(key, default)\<close>: only a dict has \<open>get\<close>.\<close>

definition json_get :: "json \<Rightarrow> string \<Rightarrow> json \<Rightarrow> py_error + json" where
  "json_get d key dflt =
     (case d of
        JObj items \<Rightarrow> Inr (case map_of items key of None \<Rightarrow> dflt | Some v \<Rightarrow> v)
      | _ \<Rightarrow> Inl AttributeError)"

text \<open>
  What \<open>for f in v\<close> runs over: the elements of a list, the keys of a dict, the
  characters of a string; anything else is not iterable.
\<close>

definition json_iter :: "json \<Rightarrow> py_error + json list" where
  "json_iter v =
     (case v of
        JArr xs \<Rightarrow> Inr xs
      | JObj items \<Rightarrow> Inr (map (\<lambda>kv. JStr (fst kv)) items)
      | JStr s \<Rightarrow> Inr (map (\<lambda>c. JStr [c]) s)
      | _ \<Rightarrow> Inl TypeError)"

definition is_form4_name :: "string \<Rightarrow> bool" where
  "is_form4_name name =
     (name = ''form4.xml'' \<or> endswith name ''_form4.xml'' \<or>
      (endswith name ''.xml'' \<and> contains name ''form4''))"

text \<open>The loop over the directory items: the first item whose lowered name fits.\<close>

fun first_form4_item :: "string \<Rightarrow> json list \<Rightarrow> py_error + string option" where
  "first_form4_item dirpath [] = Inr None"
| "first_form4_item dirpath (f # fs) =
     (case json_get f ''name'' (JStr []) of
        Inl e \<Rightarrow> Inl e
      | Inr (JStr nm) \<Rightarrow>
          if is_form4_name (lower nm) then Inr (Some (dirpath @ ''/'' @ nm))
          else first_form4_item dirpath fs
      | Inr _ \<Rightarrow> Inl AttributeError)"

definition find_form4_xml_url :: "world \<Rightarrow> string \<Rightarrow> string option \<Rightarrow> py_error + string option" where
  "find_form4_xml_url w cik filename =
     (case extract_accession_and_dirpath filename of
        Inl e \<Rightarrow> Inl e
      | Inr (accession, dirpath) \<Rightarrow>
     (case dir_index_json_url cik accession of
        Inl e \<Rightarrow> Inl e
      | Inr idx_url \<Rightarrow>
     (case (case http_get w idx_url of Inl e \<Rightarrow> Inl e | Inr body \<Rightarrow> json_loads w body) of
        Inl e \<Rightarrow> Inr None
      | Inr data \<Rightarrow>
     (case json_get data ''directory'' (JObj []) of
        Inl e \<Rightarrow> Inl e
      | Inr dir \<Rightarrow>
     (case json_get dir ''item'' (JArr []) of
        Inl e \<Rightarrow> Inl e
      | Inr items \<Rightarrow>
     (case json_iter items of
        Inl e \<Rightarrow> Inl e
      | Inr fs \<Rightarrow> first_form4_item dirpath fs))))))"

section \<open>Parsing a Form 4 document\<close>

text \<open>\<open>elem.iter()\<close>: the element and everything below it, in document order.\<close>

fun subtree :: "xml \<Rightarrow> xml list" where
  "subtree (Elem t x cs) = Elem t x cs # concat (map subtree cs)"

text \<open>
  The steps of an ElementPath expression: \<open>/name\<close> selects the children with that tag,
  \<open>//name\<close> the elements with that tag anywhere below, the context element excluded.
\<close>

datatype step = Child string | Desc string

definition select_step :: "step \<Rightarrow> xml \<Rightarrow> xml list" where
  "select_step st e =
     (case st of
        Child nm \<Rightarrow> filter (\<lambda>c. tag c = nm) (children e)
      | Desc nm \<Rightarrow> filter (\<lambda>c. tag c = nm) (concat (map subtree (children e))))"

fun select_path :: "step list \<Rightarrow> xml list \<Rightarrow> xml list" where
  "select_path [] es = es"
| "select_path (st # sts) es = select_path sts (concat (map (select_step st) es))"

definition findall :: "xml \<Rightarrow> step list \<Rightarrow> xml list" where
  "findall e path = select_path path [e]"

text \<open>
  \<open>findtext(path, default)\<close>: the default when nothing is found, else the text of the
  first element found, the empty string when it has none.
\<close>

definition findtext :: "xml \<Rightarrow> step list \<Rightarrow> string option \<Rightarrow> string option" where
  "findtext e path dflt =
     (case findall e path of
        [] \<Rightarrow> dflt
      | x # _ \<Rightarrow> Some (case elem_text x of None \<Rightarrow> [] | Some s \<Rightarrow> s))"

text \<open>\<open>(v or "")\<close> for a value that is a string or \<open>None\<close>.\<close>

definition or_empty :: "string option \<Rightarrow> string" where
  "or_empty v = (case v of None \<Rightarrow> [] | Some s \<Rightarrow> s)"

text \<open>\<open>float(v) if v is not None else None\<close> inside \<open>try\<close>, \<open>None\<close> on any exception.\<close>

definition float_or_none :: "world \<Rightarrow> string option \<Rightarrow> double option" where
  "float_or_none w v =
     (case v of
        None \<Rightarrow> None
      | Some s \<Rightarrow> (case to_float w s of None \<Rightarrow> None | Some x \<Rightarrow> Some x))"

text \<open>The body of the loop over the transactions found: the record of one element.\<close>

definition tx_row :: "world \<Rightarrow> string \<Rightarrow> string \<Rightarrow> xml \<Rightarrow> string transaction" where
  "tx_row w issuer_sym issuer_name tx =
     (let code = strip (or_empty (findtext tx [Child ''transactionCoding'', Child ''transactionCode'']
                                    (Some [])));
          shares_t = findtext tx [Child ''transactionAmounts'', Child ''transactionShares'',
                                   Child ''value''] None;
          price_t = findtext tx [Child ''transactionAmounts'', Child ''transactionPricePerShare'',
                                  Child ''value''] None;
          date_t = findtext tx [Child ''transactionDate'', Child ''value''] None;
          direct = findtext tx [Child ''ownershipNature'', Child ''directOrIndirectOwnership'',
                                 Child ''value''] None
      in \<lparr> issuerSymbol = issuer_sym, issuerName = issuer_name, transactionCode = code,
           shares = float_or_none w shares_t, price = float_or_none w price_t,
           date = date_t, ownership = direct \<rparr>)"

text \<open>The dictionary \<open>parse_form4_xml\<close> returns.\<close>

record form4 =
  doc_issuerSymbol :: string
  doc_issuerName :: string
  transactions :: "string transaction list"

definition parse_form4_root :: "world \<Rightarrow> xml \<Rightarrow> form4" where
  "parse_form4_root w doc =
     (let issuer_sym = strip (or_empty (findtext doc [Desc ''issuerTradingSymbol''] (Some [])));
          issuer_name = strip (or_empty (findtext doc [Desc ''issuerName''] (Some [])));
          tx_rows = map (tx_row w issuer_sym issuer_name)
                      (findall doc [Desc ''nonDerivativeTable'', Child ''nonDerivativeTransaction''])
      in \<lparr> doc_issuerSymbol = issuer_sym, doc_issuerName = issuer_name, transactions = tx_rows \<rparr>)"

definition parse_form4_xml :: "world \<Rightarrow> string \<Rightarrow> py_error + form4" where
  "parse_form4_xml w xml_bytes =
     (case xml_fromstring w xml_bytes of
        Inl e \<Rightarrow> Inl e
      | Inr doc \<Rightarrow> Inr (parse_form4_root w doc))"

section \<open>Building the transactions table\<close>

text \<open>
  The loop of \<open>build_activity_summary\<close> over the rows still to visit, with the
  accumulated \<open>rows\<close> and \<open>count\<close> (here \<open>rws\<close> and \<open>cnt\<close>). The call of \<open>find_form4_xml_url\<close> stands outside
  the \<open>try\<close>: what it raises leaves the function. The download and the parse stand
  inside: what they raise skips the filing.
\<close>

fun summary_loop ::
  "world \<Rightarrow> int \<Rightarrow> string transaction list \<Rightarrow> int \<Rightarrow> dated_filing list \<Rightarrow>
   py_error + (string transaction list \<times> int)" where
  "summary_loop w max_filings rws cnt [] = Inr (rws, cnt)"
| "summary_loop w max_filings rws cnt (r # rs) =
     (if cnt \<ge> max_filings then Inr (rws, cnt)
      else
        let cik = zfill 10 (str_cell (CIK r));
            filename = Filename r
        in case find_form4_xml_url w cik filename of
             Inl e \<Rightarrow> Inl e
           | Inr None \<Rightarrow> summary_loop w max_filings rws cnt rs
           | Inr (Some xml_url) \<Rightarrow>
               if xml_url = [] then summary_loop w max_filings rws cnt rs
               else
                 (case http_get w xml_url of
                    Inl e \<Rightarrow> summary_loop w max_filings rws cnt rs
                  | Inr xml_bytes \<Rightarrow>
                      (case parse_form4_xml w xml_bytes of
                         Inl e \<Rightarrow> summary_loop w max_filings rws cnt rs
                       | Inr parsed \<Rightarrow>
                           summary_loop w max_filings (rws @ transactions parsed) (cnt + 1) rs)))"

text \<open>
  The cleanup of the table: \<open>to_numeric\<close> leaves a float or a missing value as it is,
  \<open>to_datetime\<close> turns the date text into a timestamp or a missing value.
\<close>

definition cleanup :: "world \<Rightarrow> string transaction \<Rightarrow> timestamp transaction" where
  "cleanup w t =
     \<lparr> issuerSymbol = issuerSymbol t, issuerName = issuerName t,
       transactionCode = transactionCode t, shares = shares t, price = price t,
       date = (case date t of None \<Rightarrow> None | Some s \<Rightarrow> to_datetime w s),
       ownership = ownership t \<rparr>"

definition build_activity_summary ::
  "world \<Rightarrow> dated_filing list \<Rightarrow> int \<Rightarrow> py_error + timestamp transaction list" where
  "build_activity_summary w filings_df max_filings =
     (case summary_loop w max_filings [] 0 filings_df of
        Inl e \<Rightarrow> Inl e
      | Inr (rws, cnt) \<Rightarrow> if rws \<noteq> [] then Inr (map (cleanup w) rws) else Inr [])"

section \<open>Aggregation on a store of pandas objects\<close>

text \<open>
  To speak of what \<open>aggregate_by_issuer\<close> does to its argument, the pandas objects are
  placed in a store and a variable holds a reference into it. Each pandas call of the
  function (the boolean selection, \<open>groupby(...)[...].sum\<close> and \<open>.count\<close>, \<open>rename\<close>,
  \<open>pd.concat\<close>, \<open>fillna\<close>, \<open>sort_values\<close>, \<open>reset_index\<close>) builds a new object from its
  operands: none is called with \<open>inplace=True\<close>, and the function has no assignment into
  \<open>transactions\<close>.
\<close>

datatype 'd obj =
    Table "'d transaction list"
  | Series_float "(string \<times> double) list"
  | Series_count "(string \<times> nat) list"
  | Aggregate "issuer_aggregate frame"

type_synonym 'd store = "'d obj list"

definition alloc :: "'d store \<Rightarrow> 'd obj \<Rightarrow> nat \<times> 'd store" where
  "alloc s ob = (length s, s @ [ob])"

definition table_at :: "'d store \<Rightarrow> nat \<Rightarrow> 'd transaction list option" where
  "table_at s r =
     (if r < length s then (case s ! r of Table t \<Rightarrow> Some t | _ \<Rightarrow> None) else None)"

definition series_float_at :: "'d store \<Rightarrow> nat \<Rightarrow> (string \<times> double) list option" where
  "series_float_at s r =
     (if r < length s then (case s ! r of Series_float v \<Rightarrow> Some v | _ \<Rightarrow> None) else None)"

definition series_count_at :: "'d store \<Rightarrow> nat \<Rightarrow> (string \<times> nat) list option" where
  "series_count_at s r =
     (if r < length s then (case s ! r of Series_count v \<Rightarrow> Some v | _ \<Rightarrow> None) else None)"

text \<open>\<open>df[df["transactionCode"] == code]\<close>: a new table.\<close>

definition st_select :: "'d store \<Rightarrow> nat \<Rightarrow> string \<Rightarrow> (nat \<times> 'd store) option" where
  "st_select s r code =
     map_option (\<lambda>t. alloc s (Table (filter (\<lambda>x. transactionCode x = code) t))) (table_at s r)"

text \<open>\<open>df.groupby("issuerSymbol")["shares"].sum(min_count=1)\<close>: a new series.\<close>

definition st_groupby_sum :: "'d store \<Rightarrow> nat \<Rightarrow> (nat \<times> 'd store) option" where
  "st_groupby_sum s r = map_option (\<lambda>t. alloc s (Series_float (groupby_sum t))) (table_at s r)"

text \<open>\<open>df.groupby("issuerSymbol")["shares"].count()\<close>: a new series.\<close>

definition st_groupby_count :: "'d store \<Rightarrow> nat \<Rightarrow> (nat \<times> 'd store) option" where
  "st_groupby_count s r = map_option (\<lambda>t. alloc s (Series_count (groupby_count t))) (table_at s r)"

text \<open>
  \<open>pd.concat([...], axis=1).fillna(0).sort_values(...)\<close> and \<open>reset_index()\<close> on the four
  series: a new frame.
\<close>

definition st_concat_sort ::
  "'d store \<Rightarrow> nat \<Rightarrow> nat \<Rightarrow> nat \<Rightarrow> nat \<Rightarrow> (nat \<times> 'd store) option" where
  "st_concat_sort s n tot bs ss =
     (case (series_count_at s n, series_float_at s tot, series_float_at s bs, series_float_at s ss) of
        (Some nv, Some tv, Some bv, Some sv) \<Rightarrow>
          Some (alloc s (Aggregate \<lparr> columns = agg_columns,
                                     rows = sort_values_desc (concat_fillna nv tv bv sv) \<rparr>))
      | _ \<Rightarrow> None)"

text \<open>
  \<open>aggregate_by_issuer\<close> on a store: \<open>transactions\<close> is a reference (here
  \<open>transactions_ref\<close>); the result is the reference of the frame returned and the store
  after the call. \<open>None\<close> stands for a reference that does not hold an object of the
  kind the call needs.
\<close>

definition aggregate_by_issuer_st :: "'d store \<Rightarrow> nat \<Rightarrow> (nat \<times> 'd store) option" where
  "aggregate_by_issuer_st s transactions_ref =
     (case table_at s transactions_ref of
        None \<Rightarrow> None
      | Some t \<Rightarrow>
          if t = [] then Some (alloc s (Aggregate \<lparr> columns = agg_columns, rows = [] \<rparr>))
          else
            Option.bind (st_select s transactions_ref ''P'') (\<lambda>(p, s1).
            Option.bind (st_groupby_sum s1 p) (\<lambda>(bs, s2).
            Option.bind (st_select s2 transactions_ref ''S'') (\<lambda>(q, s3).
            Option.bind (st_groupby_sum s3 q) (\<lambda>(ss, s4).
            Option.bind (st_groupby_sum s4 transactions_ref) (\<lambda>(tot, s5).
            Option.bind (st_groupby_count s5 transactions_ref) (\<lambda>(n, s6).
            st_concat_sort s6 n tot bs ss)))))))"

section \<open>Descriptions the statements refer to\<close>

text \<open>
  The lines after the last line that begins with five dashes; all the lines when no line
  begins so.
\<close>

definition after_last_delimiter :: "string list \<Rightarrow> string list" where
  "after_last_delimiter lines = rev (takeWhile (\<lambda>l. \<not> startswith l ''-----'') (rev lines))"

text \<open>The pipe-delimited lines of an index text: those of the lines above that contain a bar.\<close>

definition pipe_lines :: "string \<Rightarrow> string list" where
  "pipe_lines raw = filter (\<lambda>l. CHR ''|'' \<in> set l) (after_last_delimiter (splitlines raw))"

text \<open>
  What one day contributes to the range: nothing when its fetch or parse raises, else its
  Form 4 rows, each stamped with the day and with its CIK zero-filled.
\<close>

definition day_rows :: "world \<Rightarrow> int \<Rightarrow> dated_filing list" where
  "day_rows w d =
     (case fetch_daily_master_idx w d of
        Inl e \<Rightarrow> []
      | Inr df \<Rightarrow>
          map (\<lambda>r. normalize_cik (with_date (strftime w ''%Y-%m-%d'' d) r)) (filter is_form4 df))"

text \<open>The nonDerivativeTransaction elements of a document, in document order.\<close>

definition tx_elements :: "xml \<Rightarrow> xml list" where
  "tx_elements doc = filter (\<lambda>e. tag e = ''nonDerivativeTransaction'') (subtree doc)"

text \<open>
  The text of the first element with the given tag below the root of the document, the
  empty string when there is no such element or it has no text.
\<close>

definition first_text :: "xml \<Rightarrow> string \<Rightarrow> string" where
  "first_text doc nm =
     (case filter (\<lambda>e. tag e = nm) (concat (map subtree (children doc))) of
        [] \<Rightarrow> []
      | x # _ \<Rightarrow> or_empty (elem_text x))"

text \<open>
  The shape of a Form 4 document, as far as its transactions go: the root is an
  \<open>ownershipDocument\<close>; the nonDerivativeTable elements are children of the root; the
  nonDerivativeTransaction elements are children of a nonDerivativeTable; neither tag
  occurs anywhere else.
\<close>

definition tx_free :: "xml \<Rightarrow> bool" where
  "tx_free e =
     (\<forall>x \<in> set (subtree e). tag x \<noteq> ''nonDerivativeTable'' \<and> tag x \<noteq> ''nonDerivativeTransaction'')"

definition form4_shape :: "xml \<Rightarrow> bool" where
  "form4_shape doc =
     (tag doc = ''ownershipDocument'' \<and>
      (\<forall>c \<in> set (children doc).
         if tag c = ''nonDerivativeTable''
         then (\<forall>g \<in> set (children c). tag g \<noteq> ''nonDerivativeTable'' \<and>
                 (\<forall>d \<in> set (children g). tx_free d))
         else tx_free c))"

text \<open>
  What a filing contributes to the table when its document is located, fetched and parsed:
  the transactions of the document; \<open>None\<close> for a filing that is skipped or on which the
  locator raises.
\<close>

definition filing_doc :: "world \<Rightarrow> dated_filing \<Rightarrow> string transaction list option" where
  "filing_doc w r =
     (case find_form4_xml_url w (zfill 10 (str_cell (CIK r))) (Filename r) of
        Inr (Some xml_url) \<Rightarrow>
          if xml_url = [] then None
          else (case http_get w xml_url of
                  Inl e \<Rightarrow> None
                | Inr xml_bytes \<Rightarrow>
                    (case parse_form4_xml w xml_bytes of
                       Inl e \<Rightarrow> None
                     | Inr parsed \<Rightarrow> Some (transactions parsed)))
      | _ \<Rightarrow> None)"

text \<open>The locator raises on a filing.\<close>

definition locator_raises :: "world \<Rightarrow> dated_filing \<Rightarrow> bool" where
  "locator_raises w r =
     (case find_form4_xml_url w (zfill 10 (str_cell (CIK r))) (Filename r) of
        Inl e \<Rightarrow> True
      | Inr u \<Rightarrow> False)"

text \<open>
  The row of one issuer, said from the table: the number of present share counts among its
  records, their float sum in row order, and their float sums over the records with code P
  and with code S (an empty sum is 0, and so is a sum that came out as NaN).
\<close>

definition present_shares :: "'d transaction list \<Rightarrow> double list" where
  "present_shares txs = List.map_filter share_value txs"

definition float_total :: "double list \<Rightarrow> double" where
  "float_total vs = (if kahan_sum vs = NaN then Finite 0 else kahan_sum vs)"

definition issuer_row :: "'d transaction list \<Rightarrow> string \<Rightarrow> issuer_aggregate" where
  "issuer_row txs k =
     (let g = filter (\<lambda>t. issuerSymbol t = k) txs
      in \<lparr> agg_issuerSymbol = k,
           nTransactions = length (present_shares g),
           totalShares = float_total (present_shares g),
           buys = float_total (present_shares (filter (\<lambda>t. transactionCode t = ''P'') g)),
           sells = float_total (present_shares (filter (\<lambda>t. transactionCode t = ''S'') g)) \<rparr>)"

text \<open>
  The share counts of a table add without rounding when those present are whole numbers
  whose sizes sum to less than \<open>2^53\<close>.
\<close>

definition is_whole :: "double \<Rightarrow> bool" where
  "is_whole v = (case v of Finite x \<Rightarrow> x = of_int \<lfloor>x\<rfloor> | _ \<Rightarrow> False)"

definition dval :: "double \<Rightarrow> real" where
  "dval v = (case v of Finite x \<Rightarrow> x | _ \<Rightarrow> 0)"

definition whole_shares :: "'d transaction list \<Rightarrow> bool" where
  "whole_shares txs =
     list_all (\<lambda>t. case share_value t of None \<Rightarrow> True | Some v \<Rightarrow> is_whole v) txs"

definition share_size :: "'d transaction \<Rightarrow> real" where
  "share_size t = (case share_value t of None \<Rightarrow> 0 | Some v \<Rightarrow> \<bar>dval v\<bar>)"

definition share_mass :: "'d transaction list \<Rightarrow> real" where
  "share_mass txs = sum_list (map share_size txs)"

section \<open>Example inputs\<close>

definition tx_buy :: "string transaction" where
  "tx_buy = \<lparr> issuerSymbol = ''AAA'', issuerName = ''Alpha'', transactionCode = ''P'',
     shares = Some (Finite 100), price = Some (Finite 2), date = Some ''2025-01-02'',
     ownership = Some ''D'' \<rparr>"

definition tx_sell :: "string transaction" where
  "tx_sell = \<lparr> issuerSymbol = ''BBB'', issuerName = ''Beta'', transactionCode = ''S'',
     shares = Some (Finite 40), price = None, date = None, ownership = Some ''I'' \<rparr>"

definition tx_no_shares :: "string transaction" where
  "tx_no_shares = \<lparr> issuerSymbol = ''AAA'', issuerName = ''Alpha'', transactionCode = ''S'',
     shares = None, price = None, date = None, ownership = None \<rparr>"

text \<open>An index text with one delimiter line and one data line of two fields.\<close>

definition idx_short_row :: string where
  "idx_short_row = ''-----'' @ [CHR 0x0A] @ ''a|b''"

text \<open>
  An index text with a header that contains a bar, the delimiter, a full data line ended by
  CR LF and a data line of three fields.
\<close>

definition idx_two_rows :: string where
  "idx_two_rows =
     ''CIK|Company Name|Form Type|Date Filed|Filename'' @ [CHR 0x0A] @ ''-----------'' @ [CHR 0x0A]
     @ ''1|Co|4|20250102|edgar/data/1/0000000001-25-000001.txt'' @ [CHR 0x0D, CHR 0x0A]
     @ ''2|Co|4'' @ [CHR 0x0A]"

definition filing_one :: dated_filing where
  "filing_one = \<lparr> CIK = Some ''0000000001'', Company_Name = Some ''Co'', Form_Type = Some ''4'',
     Date_Filed = Some ''20250102'', Filename = Some ''edgar/data/1/0000000001-25-000001.txt'',
     day = ''2025-01-02'' \<rparr>"

definition filing_two :: dated_filing where
  "filing_two = \<lparr> CIK = Some ''0000000002'', Company_Name = Some ''Co'', Form_Type = Some ''4'',
     Date_Filed = None, Filename = None, day = ''2025-01-02'' \<rparr>"

definition filing_three :: dated_filing where
  "filing_three = \<lparr> CIK = Some ''0000000003'', Company_Name = Some ''Other'', Form_Type = Some ''4/A'',
     Date_Filed = Some ''20250103'', Filename = Some ''edgar/data/3/0000000003-25-000007.txt'',
     day = ''2025-01-03'' \<rparr>"

text \<open>
  A small world. Its calendar reads the ordinal \<open>i\<close> as day \<open>i\<close> of January 2025 (and
  formats it so, which is enough for the few days the examples use); the
  index of day 2 is \<open>idx_two_rows\<close>, the directory of the first filing lists a file
  \<open>Form4.XML\<close>, whose content parses to \<open>demo_doc\<close>; every other URL fails.
\<close>

definition demo_tx1 :: xml where
  "demo_tx1 =
     Elem ''nonDerivativeTransaction'' None
       [Elem ''transactionDate'' None [Elem ''value'' (Some ''2025-01-02'') []],
        Elem ''transactionCoding'' None [Elem ''transactionCode'' (Some '' P '') []],
        Elem ''transactionAmounts'' None
          [Elem ''transactionShares'' None [Elem ''value'' (Some ''100'') []],
           Elem ''transactionPricePerShare'' None [Elem ''value'' (Some ''2.5'') []]],
        Elem ''ownershipNature'' None
          [Elem ''directOrIndirectOwnership'' None [Elem ''value'' (Some ''D'') []]]]"

definition demo_tx2 :: xml where
  "demo_tx2 =
     Elem ''nonDerivativeTransaction'' None
       [Elem ''transactionCoding'' None [Elem ''transactionCode'' (Some ''S'') []],
        Elem ''transactionAmounts'' None
          [Elem ''transactionShares'' None [Elem ''value'' (Some ''n/a'') []]]]"

definition demo_doc :: xml where
  "demo_doc =
     Elem ''ownershipDocument'' None
       [Elem ''issuer'' None
          [Elem ''issuerName'' (Some '' Alpha Inc '') [],
           Elem ''issuerTradingSymbol'' (Some ''AAA'') []],
        Elem ''nonDerivativeTable'' None
          [demo_tx1, Elem ''nonDerivativeHolding'' None [], demo_tx2]]"

definition demo_world :: world where
  "demo_world =
     \<lparr> http_get = (\<lambda>u.
         if u = ''https://www.sec.gov/Archives/edgar/daily-index/2025/Q1/master.20250102.idx''
         then Inr idx_two_rows
         else if u = ''https://www.sec.gov/Archives/edgar/data/1/000000000125000001/index.json''
         then Inr ''dir''
         else if u = ''https://www.sec.gov/Archives/edgar/data/1/000000000125000001/Form4.XML''
         then Inr ''doc''
         else Inl HTTPError),
       year = (\<lambda>i. 2025),
       month = (\<lambda>i. 1),
       strftime = (\<lambda>fmt i.
         if fmt = ''%Y%m%d'' then ''202501'' @ zfill 2 (str_nat (nat i))
         else ''2025-01-'' @ zfill 2 (str_nat (nat i))),
       json_loads = (\<lambda>b.
         if b = ''dir''
         then Inr (JObj [(''directory'', JObj [(''item'', JArr [JObj [(''name'', JStr ''Form4.XML'')]])])])
         else Inl ValueError),
       xml_fromstring = (\<lambda>b. if b = ''doc'' then Inr demo_doc else Inl ParseError),
       to_float = (\<lambda>s.
         if s = ''100'' then Some (Finite 100)
         else if s = ''2.5'' then Some (Finite (5 / 2))
         else None),
       to_datetime = (\<lambda>s. if s = ''2025-01-02'' then Some 20090 else None) \<rparr>"

text \<open>A filing whose Filename matches neither pattern.\<close>

definition filing_bad_name :: dated_filing where
  "filing_bad_name = \<lparr> CIK = Some ''0000000009'', Company_Name = Some ''Nine'', Form_Type = Some ''4'',
     Date_Filed = Some ''20250102'', Filename = Some ''edgar/data/9/readme.txt'',
     day = ''2025-01-02'' \<rparr>"

text \<open>
  Three purchases of one issuer whose share counts do not add exactly: \<open>10^16 + 1\<close> is
  not a double.
\<close>

definition tx_big :: "string transaction" where
  "tx_big = \<lparr> issuerSymbol = ''AAA'', issuerName = ''Alpha'', transactionCode = ''P'',
     shares = Some (Finite 10000000000000000), price = None, date = None, ownership = None \<rparr>"

definition tx_unit :: "string transaction" where
  "tx_unit = \<lparr> issuerSymbol = ''AAA'', issuerName = ''Alpha'', transactionCode = ''P'',
     shares = Some (Finite 1), price = None, date = None, ownership = None \<rparr>"

definition tx_big_neg :: "string transaction" where
  "tx_big_neg = \<lparr> issuerSymbol = ''AAA'', issuerName = ''Alpha'', transactionCode = ''P'',
     shares = Some (Finite (- 10000000000000000)), price = None, date = None, ownership = None \<rparr>"

text \<open>A store with a series and, at reference 1, a table of three transactions.\<close>

definition demo_store :: "string store" where
  "demo_store = [Series_count [], Table [tx_buy, tx_sell, tx_no_shares]]"

section \<open>Properties of the float sum\<close>

lemma least_exp_eq:
  assumes "q0 \<le> q" "971 \<le> q \<or> a < 2 powi (q + 53)"
    "\<And>j. q0 \<le> j \<Longrightarrow> j < q \<Longrightarrow> \<not> (971 \<le> j \<or> a < 2 powi (j + 53))"
  shows "least_exp a q0 = q"
  using assms
proof (induction a q0 rule: least_exp.induct)
  case (1 a q0)
  show ?case
  proof (cases "971 \<le> q0 \<or> a < 2 powi (q0 + 53)")
    case True
    then have "\<not> q0 < q" using "1.prems"(3) [of q0] by auto
    then have "q0 = q" using "1.prems"(1) by simp
    then show ?thesis using True by (subst least_exp.simps) auto
  next
    case False
    then have "q0 \<noteq> q" using "1.prems"(2) by auto
    then have lt: "q0 + 1 \<le> q" using "1.prems"(1) by simp
    have "least_exp a (q0 + 1) = q"
      using False lt "1.prems"(2,3) by (intro "1.IH") auto
    then show ?thesis using False by (simp add: least_exp.simps [of a q0])
  qed
qed

lemma least_exp_ge: "q0 \<le> least_exp a q0"
proof (induction a q0 rule: least_exp.induct)
  case (1 a q0)
  show ?case
  proof (cases "971 \<le> q0 \<or> a < 2 powi (q0 + 53)")
    case True
    then show ?thesis by (simp add: least_exp.simps [of a q0])
  next
    case False
    then show ?thesis using "1.IH" by (simp add: least_exp.simps [of a q0])
  qed
qed

lemma least_exp_le:
  assumes "q0 \<le> q" "a < 2 powi (q + 53)"
  shows "least_exp a q0 \<le> q"
  using assms
proof (induction a q0 rule: least_exp.induct)
  case (1 a q0)
  show ?case
  proof (cases "971 \<le> q0 \<or> a < 2 powi (q0 + 53)")
    case True
    then show ?thesis using "1.prems" by (simp add: least_exp.simps [of a q0])
  next
    case False
    then have "q0 \<noteq> q" using "1.prems" by auto
    then have "q0 + 1 \<le> q" using "1.prems" by simp
    then show ?thesis using False "1.IH" "1.prems"(2) by (simp add: least_exp.simps [of a q0])
  qed
qed


lemma ulp_exp_ge: "- 1074 \<le> ulp_exp x"
  by (simp add: ulp_exp_def least_exp_ge)

lemma ulp_exp_le:
  "- 1074 \<le> q \<Longrightarrow> \<bar>x\<bar> < 2 powi (q + 53) \<Longrightarrow> ulp_exp x \<le> q"
  by (simp add: ulp_exp_def least_exp_le)

lemma ulp_exp_eq:
  assumes "- 1074 \<le> q" "q \<le> 971"
    and "\<bar>x\<bar> < 2 powi (q + 53)" "2 powi (q + 52) \<le> \<bar>x\<bar>"
  shows "ulp_exp x = q"
  unfolding ulp_exp_def
proof (rule least_exp_eq)
  show "- 1074 \<le> q" by fact
  show "971 \<le> q \<or> \<bar>x\<bar> < 2 powi (q + 53)" using assms(3) by simp
  fix j assume j: "- 1074 \<le> j" "j < q"
  have "(2::real) powi (j + 53) \<le> 2 powi (q + 52)"
    using j by (intro power_int_increasing) auto
  then show "\<not> (971 \<le> j \<or> \<bar>x\<bar> < 2 powi (j + 53))"
    using assms(2,4) j by auto
qed

lemma round_half_even_of_int [simp]: "round_half_even (of_int k) = k"
  by (simp add: round_half_even_def)

text \<open>A whole number below 2^53 in size is a double.\<close>

lemma round_double_whole:
  assumes "\<bar>z\<bar> < 2 ^ 53"
  shows "round_double (of_int z) = Finite (of_int z)"
proof -
  define q where "q = ulp_exp (of_int z)"
  have "\<bar>real_of_int z\<bar> < 2 powi (0 + 53)"
    using assms by (simp flip: of_int_abs add: of_int_less_numeral_power_cancel_iff)
  then have q0: "q \<le> 0" unfolding q_def by (intro ulp_exp_le) auto
  have q1: "- 1074 \<le> q" unfolding q_def by (rule ulp_exp_ge)
  define n where "n = nat (- q)"
  have qn: "q = - int n" using q0 by (simp add: n_def)
  have p: "(2::real) powi q = 1 / 2 ^ n" by (simp add: qn power_int_minus field_simps)
  have "real_of_int z / 2 powi q = of_int (z * 2 ^ n)" by (simp add: p)
  then have m: "round_half_even (real_of_int z / 2 powi q) = z * 2 ^ n"
    by (simp only: round_half_even_of_int)
  have r: "of_int (z * 2 ^ n) * (2::real) powi q = of_int z" by (simp add: p)
  have "\<bar>real_of_int z\<bar> < 2 powi 1024"
  proof -
    have "\<bar>real_of_int z\<bar> < 2 ^ 53"
      using assms by (simp flip: of_int_abs add: of_int_less_numeral_power_cancel_iff)
    also have "\<dots> \<le> (2::real) ^ 1024" by (intro power_increasing) auto
    finally show ?thesis by simp
  qed
  then show ?thesis
    unfolding round_double_def Let_def q_def [symmetric] m r by simp
qed


text \<open>Between 2^53 and 2^54 the doubles are the even whole numbers.\<close>

lemma round_double_step2:
  assumes "2 ^ 53 \<le> \<bar>x\<bar>" "\<bar>x\<bar> < 2 ^ 54"
  shows "round_double x = Finite (of_int (round_half_even (x / 2)) * 2)"
proof -
  have q: "ulp_exp x = 1" using assms by (intro ulp_exp_eq) auto
  define f where "f = \<lfloor>x / 2\<rfloor>"
  have y: "- (2 ^ 53) \<le> x / 2" "x / 2 < 2 ^ 53"
    using assms by (auto simp: abs_if split: if_splits)
  have f1: "f < 2 ^ 53"
    unfolding f_def using y(2) by (simp add: floor_less_iff)
  have f2: "- (2 ^ 53) \<le> f"
    unfolding f_def using y(1) by (simp add: le_floor_iff)
  have "round_half_even (x / 2) = f \<or> round_half_even (x / 2) = f + 1"
    by (simp add: round_half_even_def Let_def f_def)
  then have "\<bar>round_half_even (x / 2)\<bar> \<le> 2 ^ 53"
    using f1 f2 by auto
  then have "\<bar>real_of_int (round_half_even (x / 2))\<bar> \<le> 2 ^ 53"
    by (simp flip: of_int_abs add: of_int_le_numeral_power_cancel_iff)
  then have "\<bar>real_of_int (round_half_even (x / 2)) * 2\<bar> \<le> 2 ^ 53 * 2"
    by (simp add: abs_mult)
  also have "\<dots> < (2::real) ^ 1024" by simp
  finally show ?thesis by (simp add: round_double_def q Let_def)
qed

lemma kahan_step_whole:
  assumes "\<bar>s\<bar> + \<bar>v\<bar> < 2 ^ 53"
  shows "kahan_step (Finite (of_int s), Finite 0) (Finite (of_int v))
           = (Finite (of_int (s + v)), Finite 0)"
proof -
  have v: "round_double (of_int v) = Finite (of_int v)"
    using assms by (intro round_double_whole) auto
  have t: "round_double (of_int (s + v)) = Finite (of_int (s + v))"
    using assms by (intro round_double_whole) auto
  have z: "round_double 0 = Finite 0"
    using round_double_whole [of 0] by simp
  show ?thesis
    using v t z by (simp add: kahan_step_def dsub_def Let_def)
qed

lemma kahan_fold_whole:
  assumes "\<bar>s\<bar> + sum_list (map abs zs) < 2 ^ 53"
  shows "foldl kahan_step (Finite (of_int s), Finite 0) (map (\<lambda>z. Finite (of_int z)) zs)
           = (Finite (of_int (s + sum_list zs)), Finite 0)"
  using assms
proof (induction zs arbitrary: s)
  case Nil
  show ?case by simp
next
  case (Cons z zs)
  have st: "kahan_step (Finite (of_int s), Finite 0) (Finite (of_int z))
              = (Finite (of_int (s + z)), Finite 0)"
  proof (rule kahan_step_whole)
    have "0 \<le> sum_list (map abs zs)" by (rule sum_list_nonneg) auto
    then show "\<bar>s\<bar> + \<bar>z\<bar> < 2 ^ 53" using Cons.prems by simp
  qed
  have "\<bar>s + z\<bar> + sum_list (map abs zs) < 2 ^ 53" using Cons.prems by simp
  from Cons.IH [OF this] st show ?case by (simp add: add.assoc)
qed

lemma kahan_sum_whole:
  assumes "sum_list (map abs zs) < 2 ^ 53"
  shows "kahan_sum (map (\<lambda>z. Finite (of_int z)) zs) = Finite (of_int (sum_list zs))"
  using kahan_fold_whole [of 0 zs] assms by (simp add: kahan_sum_def)

lemma round_double_1e16:
  "round_double 10000000000000000 = Finite 10000000000000000"
  by (subst round_double_step2) (simp_all add: round_half_even_def)
lemma round_double_1e16_plus_1:
  "round_double 10000000000000001 = Finite 10000000000000000"
  by (subst round_double_step2) (simp_all add: round_half_even_def)
lemma round_double_neg_1e16:
  "round_double (- 10000000000000000) = Finite (- 10000000000000000)"
  by (subst round_double_step2) (simp_all add: round_half_even_def)
lemma round_double_neg_1e16_plus_1:
  "round_double (- 9999999999999999) = Finite (- 10000000000000000)"
  by (subst round_double_step2) (simp_all add: round_half_even_def)
lemma round_double_small:
  "round_double 0 = Finite 0" "round_double 1 = Finite 1" "round_double (- 1) = Finite (- 1)"
  using round_double_whole [of 0] round_double_whole [of 1] round_double_whole [of "- 1"]
  by simp_all

text \<open>Two orders of the same three values, two sums.\<close>

lemma kahan_sum_order_a:
  "kahan_sum [Finite 10000000000000000, Finite 1, Finite (- 10000000000000000)] = Finite 0"
  by (simp add: kahan_sum_def kahan_step_def dsub_def Let_def round_double_1e16
      round_double_1e16_plus_1 round_double_neg_1e16 round_double_neg_1e16_plus_1
      round_double_small)

lemma kahan_sum_order_b:
  "kahan_sum [Finite 10000000000000000, Finite (- 10000000000000000), Finite 1] = Finite 1"
  by (simp add: kahan_sum_def kahan_step_def dsub_def Let_def round_double_1e16
      round_double_1e16_plus_1 round_double_neg_1e16 round_double_neg_1e16_plus_1
      round_double_small)

text \<open>The plain sum behaves alike on both counts.\<close>

lemma plain_sum_order:
  "plain_sum [Finite 10000000000000000, Finite 1, Finite (- 10000000000000000)] = Finite 0"
  "plain_sum [Finite 10000000000000000, Finite (- 10000000000000000), Finite 1] = Finite 1"
  by (simp_all add: plain_sum_def round_double_1e16 round_double_1e16_plus_1 round_double_small)

lemma plain_fold_whole:
  assumes "\<bar>s\<bar> + sum_list (map abs zs) < 2 ^ 53"
  shows "foldl dadd (Finite (of_int s)) (map (\<lambda>z. Finite (of_int z)) zs)
           = Finite (of_int (s + sum_list zs))"
  using assms
proof (induction zs arbitrary: s)
  case Nil
  show ?case by simp
next
  case (Cons z zs)
  have "0 \<le> sum_list (map abs zs)" by (rule sum_list_nonneg) auto
  then have "\<bar>s + z\<bar> < 2 ^ 53" using Cons.prems by simp
  then have st: "round_double (of_int (s + z)) = Finite (of_int (s + z))"
    by (rule round_double_whole)
  have "\<bar>s + z\<bar> + sum_list (map abs zs) < 2 ^ 53" using Cons.prems by simp
  from Cons.IH [OF this] st show ?case by (simp add: add.assoc)
qed

lemma plain_sum_whole:
  assumes "sum_list (map abs zs) < 2 ^ 53"
  shows "plain_sum (map (\<lambda>z. Finite (of_int z)) zs) = Finite (of_int (sum_list zs))"
  using plain_fold_whole [of 0 zs] assms by (simp add: plain_sum_def)

section \<open>What each aggregate row holds\<close>

lemma union_index_first:
  assumes "distinct xs" "set (concat yss) \<subseteq> set xs"
  shows "union_index (xs # yss) = xs"
proof -
  have "remdups (rev (concat yss) @ rev xs) = remdups (rev xs)"
    using assms(2) by (simp add: remdups_append filter_empty_conv subset_iff)
  then show ?thesis using assms(1) by (simp add: union_index_def distinct_remdups_id)
qed

lemma map_of_keyed:
  "map_of (map (\<lambda>k. (k, f k)) ks) k = (if k \<in> set ks then Some (f k) else None)"
  by (induction ks) auto

lemma group_keys_filter_subset: "set (group_keys (filter P txs)) \<subseteq> set (group_keys txs)"
  by (auto simp: group_keys_def)

lemma group_shares_filter:
  "group_shares (filter P txs) k
     = present_shares (filter P (filter (\<lambda>t. issuerSymbol t = k) txs))"
  by (simp add: group_shares_def present_shares_def conj_commute)

lemma group_shares_absent: "k \<notin> set (group_keys txs) \<Longrightarrow> group_shares txs k = []"
  by (auto simp: group_keys_def group_shares_def map_filter_def filter_empty_conv)

lemma kahan_sum_Nil: "kahan_sum [] = Finite 0"
  by (simp add: kahan_sum_def)

lemma fillna0_groupby_sum:
  "fillna0 (map_of (groupby_sum txs) k) = float_total (group_shares txs k)"
  by (simp add: groupby_sum_def map_of_keyed fillna0_def Let_def group_shares_absent
      float_total_def kahan_sum_Nil)

lemma concat_fillna_rows:
  "concat_fillna (groupby_count txs) (groupby_sum txs)
       (groupby_sum (filter (\<lambda>t. transactionCode t = ''P'') txs))
       (groupby_sum (filter (\<lambda>t. transactionCode t = ''S'') txs))
     = map (issuer_row txs) (group_keys txs)"
proof -
  have d: "distinct (group_keys txs)" by (simp add: group_keys_def)
  have fst1: "map fst (groupby_count txs) = group_keys txs"
    by (simp add: groupby_count_def comp_def)
  have fst2: "map fst (groupby_sum ys) = group_keys ys" for ys :: "'a transaction list"
    by (simp add: groupby_sum_def comp_def)
  have u: "union_index [map fst (groupby_count txs), map fst (groupby_sum txs),
              map fst (groupby_sum (filter (\<lambda>t. transactionCode t = ''P'') txs)),
              map fst (groupby_sum (filter (\<lambda>t. transactionCode t = ''S'') txs))]
             = group_keys txs"
    unfolding fst1 fst2 using group_keys_filter_subset [of _ txs]
    by (intro union_index_first d) auto
  have n: "(case map_of (groupby_count txs) k of Some c \<Rightarrow> c | None \<Rightarrow> 0)
             = length (group_shares txs k)" for k
    by (simp add: groupby_count_def map_of_keyed group_shares_absent)
  have g: "group_shares txs k = present_shares (filter (\<lambda>t. issuerSymbol t = k) txs)" for k
    by (simp add: group_shares_def present_shares_def)
  show ?thesis
    unfolding concat_fillna_def u
    by (simp add: n fillna0_groupby_sum group_shares_filter g issuer_row_def Let_def)
qed

text \<open>
  The rows of the aggregate are the rows of the issuers that occur, one each, sorted by
  transaction count and total shares, descending.
\<close>

lemma aggregate_rows_by_symbol:
  "rows (aggregate_by_issuer txs) = sort_values_desc (map (issuer_row txs) (group_keys txs))"
  by (cases "txs = []")
     (simp_all add: aggregate_by_issuer_def Let_def concat_fillna_rows group_keys_def
        sort_values_desc_def)

lemma aggregate_one_row_per_symbol:
  "mset (rows (aggregate_by_issuer txs)) = mset (map (issuer_row txs) (group_keys txs))
   \<and> set (group_keys txs) = issuerSymbol ` set txs \<and> distinct (group_keys txs)"
  by (simp add: aggregate_rows_by_symbol sort_values_desc_def group_keys_def)

section \<open>Properties of the aggregation\<close>

subsection \<open>Empty inputs\<close>

text \<open>
  Claim C5. On an empty transactions table \<open>aggregate_by_issuer\<close> returns a frame with no
  rows and exactly the columns issuerSymbol, nTransactions, totalShares, buys, sells; on an
  empty filings table \<open>weekly_baseline\<close> returns 0.0.
\<close>

theorem empty_input_empty_result:
  "rows (aggregate_by_issuer []) = [] \<and>
   columns (aggregate_by_issuer []) =
     [''issuerSymbol'', ''nTransactions'', ''totalShares'', ''buys'', ''sells''] \<and>
   weekly_baseline [] = 0"
  by (simp add: aggregate_by_issuer_def agg_columns_def weekly_baseline_def)

subsection \<open>Row order\<close>

text \<open>
  A permutation of the rows leaves the group keys, and within each group the bag of share
  counts, as they were.
\<close>

lemma group_keys_perm: "mset a = mset b \<Longrightarrow> group_keys a = group_keys b"
proof -
  assume "mset a = mset b"
  then have "set a = set b" by (rule mset_eq_setD)
  then have "set (map issuerSymbol a) = set (map issuerSymbol b)" by simp
  then show ?thesis
    unfolding group_keys_def sorted_list_of_set_sort_remdups [symmetric] by simp
qed

lemma group_shares_perm:
  "mset a = mset b \<Longrightarrow> mset (group_shares a k) = mset (group_shares b k)"
  by (simp add: group_shares_def map_filter_def)

lemma groupby_count_perm: "mset a = mset b \<Longrightarrow> groupby_count a = groupby_count b"
proof -
  assume h: "mset a = mset b"
  have s: "length (group_shares a k) = length (group_shares b k)" for k
    using group_shares_perm [OF h, of k] by (metis size_mset)
  show ?thesis by (simp add: groupby_count_def group_keys_perm [OF h] s)
qed

text \<open>The issuers and their counts do not depend on the row order.\<close>

lemma symbol_counts_perm:
  assumes "mset a = mset b"
  shows "mset (map (\<lambda>r. (agg_issuerSymbol r, nTransactions r)) (rows (aggregate_by_issuer a)))
       = mset (map (\<lambda>r. (agg_issuerSymbol r, nTransactions r)) (rows (aggregate_by_issuer b)))"
proof -
  have c: "map (\<lambda>r. (agg_issuerSymbol r, nTransactions r)) (map (issuer_row t) (group_keys t))
             = groupby_count t" for t :: "'a transaction list"
    by (simp add: issuer_row_def Let_def groupby_count_def group_shares_def present_shares_def
        comp_def)
  have m: "mset (map f (sort_key g xs)) = mset (map f xs)"
    for f :: "issuer_aggregate \<Rightarrow> string \<times> nat" and g :: "issuer_aggregate \<Rightarrow> int \<times> int \<times> real"
      and xs
    by simp
  have "mset (map (\<lambda>r. (agg_issuerSymbol r, nTransactions r)) (rows (aggregate_by_issuer t)))
          = mset (groupby_count t)" for t :: "'a transaction list"
    unfolding aggregate_rows_by_symbol sort_values_desc_def by (simp only: m c)
  then show ?thesis by (simp add: groupby_count_perm [OF assms])
qed

text \<open>Where the share counts are whole and small, every group sum is exact.\<close>

lemma whole_values:
  assumes "list_all is_whole vs"
  shows "vs = map (\<lambda>z. Finite (of_int z)) (map (\<lambda>v. \<lfloor>dval v\<rfloor>) vs)"
  using assms by (induction vs) (auto simp: is_whole_def dval_def split: double.splits)

lemma of_int_sum_list_real: "real_of_int (sum_list zs) = sum_list (map of_int zs)"
  by (induction zs) simp_all

lemma is_whole_dval: "is_whole v \<Longrightarrow> dval v = real_of_int \<lfloor>dval v\<rfloor>"
  by (cases v) (simp_all add: is_whole_def dval_def)

lemma is_whole_abs_dval: "is_whole v \<Longrightarrow> \<bar>dval v\<bar> = real_of_int \<bar>\<lfloor>dval v\<rfloor>\<bar>"
  using is_whole_dval [of v] by (metis of_int_abs)

lemma kahan_sum_exact:
  assumes "list_all is_whole vs" "sum_list (map (\<lambda>v. \<bar>dval v\<bar>) vs) < 2 ^ 53"
  shows "kahan_sum vs = Finite (sum_list (map dval vs))"
proof -
  define zs where "zs = map (\<lambda>v. \<lfloor>dval v\<rfloor>) vs"
  have vs: "vs = map (\<lambda>z. Finite (of_int z)) zs"
    unfolding zs_def by (rule whole_values [OF assms(1)])
  have d: "map dval vs = map of_int zs"
    unfolding zs_def map_map comp_def
    using assms(1) by (intro map_cong refl is_whole_dval) (simp add: list_all_iff)
  have "map (\<lambda>v. \<bar>dval v\<bar>) vs = map of_int (map abs zs)"
    unfolding zs_def map_map comp_def
    using assms(1) by (intro map_cong refl is_whole_abs_dval) (simp add: list_all_iff)
  then have "real_of_int (sum_list (map abs zs)) = sum_list (map (\<lambda>v. \<bar>dval v\<bar>) vs)"
    by (simp add: of_int_sum_list_real)
  then have "real_of_int (sum_list (map abs zs)) < 2 ^ 53" using assms(2) by simp
  then have "sum_list (map abs zs) < 2 ^ 53"
    by (simp add: of_int_less_numeral_power_cancel_iff)
  from kahan_sum_whole [OF this] have "kahan_sum vs = Finite (of_int (sum_list zs))"
    using vs by simp
  then show ?thesis by (simp add: d of_int_sum_list_real)
qed

lemma selected_shares_whole:
  "whole_shares txs \<Longrightarrow> list_all is_whole (List.map_filter share_value (filter Q txs))"
  by (induction txs) (auto simp: whole_shares_def map_filter_def split: option.splits)

lemma selected_shares_mass:
  "sum_list (map (\<lambda>v. \<bar>dval v\<bar>) (List.map_filter share_value (filter Q txs))) \<le> share_mass txs"
  by (induction txs) (auto simp: share_mass_def share_size_def map_filter_def split: option.splits)

lemma groupby_sum_exact:
  assumes "whole_shares txs" "share_mass txs < 2 ^ 53"
  shows "groupby_sum (filter P txs)
           = map (\<lambda>k. (k, let vs = group_shares (filter P txs) k
                          in if vs = [] then NaN else Finite (sum_list (map dval vs))))
               (group_keys (filter P txs))"
proof -
  have "kahan_sum (group_shares (filter P txs) k)
          = Finite (sum_list (map dval (group_shares (filter P txs) k)))" for k
  proof (rule kahan_sum_exact)
    show "list_all is_whole (group_shares (filter P txs) k)"
      unfolding group_shares_def filter_filter by (rule selected_shares_whole [OF assms(1)])
    show "sum_list (map (\<lambda>v. \<bar>dval v\<bar>) (group_shares (filter P txs) k)) < 2 ^ 53"
      unfolding group_shares_def filter_filter
      by (rule le_less_trans [OF selected_shares_mass assms(2)])
  qed
  then show ?thesis by (simp add: groupby_sum_def Let_def)
qed

lemma groupby_sum_perm:
  assumes "mset a = mset b" "whole_shares a" "share_mass a < 2 ^ 53"
  shows "groupby_sum (filter P a) = groupby_sum (filter P b)"
proof -
  have wb: "whole_shares b"
    using assms(1,2) by (simp add: whole_shares_def list_all_iff) (metis mset_eq_setD)
  have "share_mass b = share_mass a"
    using assms(1) by (simp add: share_mass_def flip: sum_mset_sum_list)
  then have mb: "share_mass b < 2 ^ 53" using assms(3) by simp
  have f: "mset (filter P a) = mset (filter P b)" using assms(1) by simp
  have s: "sum_list (map dval (group_shares (filter P a) k))
             = sum_list (map dval (group_shares (filter P b) k))" for k
    using group_shares_perm [OF f, of k] by (metis mset_map sum_mset_sum_list)
  have e: "(group_shares (filter P a) k = []) = (group_shares (filter P b) k = [])" for k
    using group_shares_perm [OF f, of k] by (metis mset_zero_iff)
  show ?thesis
    unfolding groupby_sum_exact [OF assms(2,3)] groupby_sum_exact [OF wb mb]
    by (simp add: group_keys_perm [OF f] s e Let_def)
qed

text \<open>
  Claim C2 as stated fails: the tables below hold the same three rows in two orders, and
  the aggregate reports a total of 0 shares for one order and of 1 share for the other,
  the float sum \<open>10^16 + 1 - 10^16\<close> depending on the order of its terms.
\<close>

theorem aggregate_depends_on_row_order:
  "mset [tx_big, tx_unit, tx_big_neg] = mset [tx_big, tx_big_neg, tx_unit] \<and>
   rows (aggregate_by_issuer [tx_big, tx_unit, tx_big_neg]) =
     [\<lparr> agg_issuerSymbol = ''AAA'', nTransactions = 3, totalShares = Finite 0,
          buys = Finite 0, sells = Finite 0 \<rparr>] \<and>
   rows (aggregate_by_issuer [tx_big, tx_big_neg, tx_unit]) =
     [\<lparr> agg_issuerSymbol = ''AAA'', nTransactions = 3, totalShares = Finite 1,
          buys = Finite 1, sells = Finite 0 \<rparr>]"
  by (simp add: aggregate_rows_by_symbol sort_values_desc_def group_keys_def issuer_row_def
      present_shares_def share_value_def map_filter_def float_total_def
      tx_big_def tx_unit_def tx_big_neg_def kahan_sum_order_a kahan_sum_order_b kahan_sum_Nil)

text \<open>
  Claim C2, amended. For every transactions table and every permutation of its rows,
  \<open>aggregate_by_issuer\<close> returns the same issuer symbols with the same transaction counts;
  and when the share counts present are whole numbers whose sizes sum to less than \<open>2^53\<close>,
  so that no float addition rounds, it returns the same result: the same rows with the
  same values in the same order.
\<close>

theorem aggregate_row_order_invariant:
  assumes "mset a = mset b"
  shows "mset (map (\<lambda>r. (agg_issuerSymbol r, nTransactions r)) (rows (aggregate_by_issuer a)))
       = mset (map (\<lambda>r. (agg_issuerSymbol r, nTransactions r)) (rows (aggregate_by_issuer b)))
     \<and> (whole_shares a \<and> share_mass a < 2 ^ 53 \<longrightarrow>
          aggregate_by_issuer a = aggregate_by_issuer b)"
proof (intro conjI impI)
  show "mset (map (\<lambda>r. (agg_issuerSymbol r, nTransactions r)) (rows (aggregate_by_issuer a)))
      = mset (map (\<lambda>r. (agg_issuerSymbol r, nTransactions r)) (rows (aggregate_by_issuer b)))"
    by (rule symbol_counts_perm [OF assms])
next
  assume w: "whole_shares a \<and> share_mass a < 2 ^ 53"
  have e: "(a = []) = (b = [])" using assms by (metis mset_zero_iff)
  have t: "groupby_sum a = groupby_sum b"
    using groupby_sum_perm [OF assms, of "\<lambda>t. True"] w by simp
  show "aggregate_by_issuer a = aggregate_by_issuer b"
    unfolding aggregate_by_issuer_def
    using w by (simp add: e t groupby_sum_perm [OF assms] groupby_count_perm [OF assms])
qed

theorem aggregate_row_order_invariant_witness:
  "mset [tx_buy, tx_sell, tx_no_shares] = mset [tx_no_shares, tx_buy, tx_sell] \<and>
   whole_shares [tx_buy, tx_sell, tx_no_shares] \<and>
   share_mass [tx_buy, tx_sell, tx_no_shares] < 2 ^ 53 \<and>
   aggregate_by_issuer [tx_buy, tx_sell, tx_no_shares]
     = aggregate_by_issuer [tx_no_shares, tx_buy, tx_sell]"
proof -
  have m: "mset [tx_buy, tx_sell, tx_no_shares] = mset [tx_no_shares, tx_buy, tx_sell]"
    by simp
  have w: "whole_shares [tx_buy, tx_sell, tx_no_shares]"
    by (simp add: whole_shares_def share_value_def is_whole_def tx_buy_def tx_sell_def
        tx_no_shares_def)
  have s: "share_mass [tx_buy, tx_sell, tx_no_shares] < 2 ^ 53"
    by (simp add: share_mass_def share_size_def share_value_def dval_def tx_buy_def tx_sell_def
        tx_no_shares_def)
  show ?thesis
    using aggregate_row_order_invariant [OF m] m w s by blast
qed

subsection \<open>The transaction count\<close>

text \<open>
  Claim C4, at a table of one record whose share count is missing: the table holds one
  transaction record with symbol AAA, and the row produced for AAA reports
  \<open>nTransactions = 0\<close>, because the count is taken over the present values of the
  \<open>shares\<close> column.
\<close>

theorem aggregate_count_skips_missing_shares:
  "length (filter (\<lambda>t. issuerSymbol t = ''AAA'') [tx_no_shares]) = 1 \<and>
   rows (aggregate_by_issuer [tx_no_shares]) =
     [\<lparr> agg_issuerSymbol = ''AAA'', nTransactions = 0, totalShares = Finite 0,
          buys = Finite 0, sells = Finite 0 \<rparr>]"
  by (simp add: aggregate_by_issuer_def tx_no_shares_def groupby_sum_def groupby_count_def
      group_keys_def group_shares_def share_value_def concat_fillna_def union_index_def
      sort_values_desc_def fillna0_def map_filter_def)

subsection \<open>The baseline\<close>

lemma sum_counts:
  assumes "distinct ds" "day ` set fs \<subseteq> set ds"
  shows "sum_list (map (\<lambda>d. length (filter (\<lambda>r. day r = d \<and> P r) fs)) ds) = length (filter P fs)"
  using assms(2)
proof (induction fs)
  case Nil
  show ?case by simp
next
  case (Cons r fs)
  have "sum_list (map (\<lambda>d. length (filter (\<lambda>r. day r = d \<and> P r) (r # fs))) ds)
      = sum_list (map (\<lambda>d. (if day r = d \<and> P r then 1 else 0)
                            + length (filter (\<lambda>r. day r = d \<and> P r) fs)) ds)"
    by (intro arg_cong [where f = sum_list] map_cong) auto
  also have "\<dots> = sum_list (map (\<lambda>d. if day r = d \<and> P r then 1 else 0) ds) + length (filter P fs)"
    using Cons by (simp add: sum_list_addf)
  also have "sum_list (map (\<lambda>d. if day r = d \<and> P r then 1 else 0) ds) = (if P r then 1 else (0::nat))"
    using Cons.prems assms(1)
    by (simp add: sum_list_distinct_conv_sum_set sum.delta' if_distrib cong: if_cong)
  finally show ?case by simp
qed

text \<open>
  Claim C6 as stated fails: two filings collected on one day give the baseline 2, not the
  number of rows divided by the seven days of the window (nor by the eight days that
  \<open>collect_last24h_and_week\<close> asks for).
\<close>

theorem weekly_baseline_not_window_average:
  "weekly_baseline [filing_one, filing_one] = 2 \<and>
   real (length [filing_one, filing_one]) / 7 \<noteq> weekly_baseline [filing_one, filing_one] \<and>
   real (length [filing_one, filing_one]) / 8 \<noteq> weekly_baseline [filing_one, filing_one]"
  by (simp add: weekly_baseline_def filename_counts_def filing_one_def)

text \<open>
  Claim C6, amended. \<open>weekly_baseline\<close> returns the mean of the per-day filing counts over
  the days that occur in the table: the number of rows whose Filename is present divided by
  the number of distinct collection dates in the table, and 0.0 for an empty table.
\<close>

theorem weekly_baseline_mean:
  "weekly_baseline fs =
     (if fs = [] then 0
      else real (length (filter (\<lambda>r. Filename r \<noteq> None) fs)) / real (card (day ` set fs)))"
proof (cases "fs = []")
  case True
  then show ?thesis by (simp add: weekly_baseline_def)
next
  case False
  have s: "sum_list (map snd (filename_counts fs)) = length (filter (\<lambda>r. Filename r \<noteq> None) fs)"
    using sum_counts [of "sort (remdups (map day fs))" fs "\<lambda>r. Filename r \<noteq> None"]
    by (simp add: filename_counts_def comp_def)
  have l: "length (filename_counts fs) = card (day ` set fs)"
    by (simp add: filename_counts_def length_remdups_card_conv)
  have n: "filename_counts fs \<noteq> []" using False l by (auto simp: card_eq_0_iff)
  show ?thesis using False by (simp add: weekly_baseline_def Let_def s l n)
qed

theorem weekly_baseline_mean_witness:
  "weekly_baseline [filing_one, filing_two, filing_three] = 1"
  using weekly_baseline_mean [of "[filing_one, filing_two, filing_three]"]
  by (simp add: filing_one_def filing_two_def filing_three_def)

section \<open>Properties of the index parse\<close>

lemma data_start_snoc:
  "data_start (xs @ [x]) = (if startswith x ''-----'' then length xs + 1 else data_start xs)"
  by (simp add: data_start_def enumerate_append_eq start_step_def)

lemma data_start_le: "data_start xs \<le> length xs"
proof (induction xs rule: rev_induct)
  case Nil
  show ?case by (simp add: data_start_def)
next
  case (snoc x xs)
  then show ?case by (simp add: data_start_snoc)
qed

lemma drop_data_start: "drop (data_start xs) xs = after_last_delimiter xs"
proof (induction xs rule: rev_induct)
  case Nil
  show ?case by (simp add: after_last_delimiter_def)
next
  case (snoc x xs)
  show ?case
  proof (cases "startswith x ''-----''")
    case True
    then show ?thesis by (simp add: data_start_snoc after_last_delimiter_def)
  next
    case False
    then show ?thesis
      using snoc data_start_le [of xs]
      by (simp add: data_start_snoc after_last_delimiter_def)
  qed
qed

lemma length_split_acc: "length (split_acc sep cur s) = count_list s sep + 1"
  by (induction s arbitrary: cur) simp_all

lemma length_split: "length (split sep s) = count_list s sep + 1"
  by (simp add: split_def length_split_acc)

lemma Max_fields:
  assumes "dl \<noteq> []"
  shows "Max (set (map length (map (split sep) dl)))
           = Max (set (map (\<lambda>l. count_list l sep) dl)) + 1"
proof -
  have "set (map length (map (split sep) dl)) = Suc ` set (map (\<lambda>l. count_list l sep) dl)"
    by (auto simp: length_split image_iff)
  moreover have "Max (Suc ` set (map (\<lambda>l. count_list l sep) dl))
                   = Suc (Max (set (map (\<lambda>l. count_list l sep) dl)))"
    using assms by (intro mono_Max_commute [symmetric]) (auto simp: mono_def)
  ultimately show ?thesis by simp
qed

text \<open>
  Claim C3 as stated fails: the text \<open>idx_short_row\<close> has one pipe-delimited line after
  its delimiter line, and its parse produces no DataFrame but raises \<open>ValueError\<close>, the
  line having two fields for five columns.
\<close>

theorem parse_master_idx_short_row_raises:
  "pipe_lines idx_short_row = [''a|b''] \<and> parse_master_idx idx_short_row = Inl ValueError"
  by (simp add: idx_short_row_def pipe_lines_def after_last_delimiter_def splitlines_def
      is_linebreak_def startswith_def parse_master_idx_def data_lines_def data_start_def
      start_step_def split_def index_frame_def)

text \<open>
  Claim C3, amended. Take the pipe-delimited lines of the text: the lines containing a bar
  after the last line that begins with five dashes (all lines when there is none). When
  there is no such line, or the most bars in one of them is four (the longest row has five
  fields), the parse yields a DataFrame with exactly as many rows as there are such lines;
  otherwise it raises \<open>ValueError\<close>.
\<close>

theorem parse_master_idx_row_count:
  "(if pipe_lines raw = [] \<or> Max (set (map (\<lambda>l. count_list l CHR ''|'') (pipe_lines raw))) = 4
    then \<exists>rs. parse_master_idx raw = Inr rs \<and> length rs = length (pipe_lines raw)
    else parse_master_idx raw = Inl ValueError)"
proof -
  have dl: "data_lines (splitlines raw) = pipe_lines raw"
    by (simp add: data_lines_def pipe_lines_def drop_data_start)
  show ?thesis
  proof (cases "pipe_lines raw = []")
    case True
    then show ?thesis by (simp add: parse_master_idx_def dl)
  next
    case False
    then show ?thesis
      using Max_fields [OF False, of "CHR ''|''"]
      by (simp add: parse_master_idx_def dl index_frame_def Let_def)
  qed
qed

theorem parse_master_idx_row_count_witness:
  "pipe_lines idx_two_rows
     = [''1|Co|4|20250102|edgar/data/1/0000000001-25-000001.txt'', ''2|Co|4''] \<and>
   (\<exists>rs. parse_master_idx idx_two_rows = Inr rs \<and> length rs = 2)"
proof -
  have p: "pipe_lines idx_two_rows
             = [''1|Co|4|20250102|edgar/data/1/0000000001-25-000001.txt'', ''2|Co|4'']"
    by (simp add: idx_two_rows_def pipe_lines_def after_last_delimiter_def splitlines_def
        is_linebreak_def startswith_def)
  have m: "Max (set (map (\<lambda>l. count_list l CHR ''|'') (pipe_lines idx_two_rows))) = 4"
    by (simp add: p)
  show ?thesis
    using parse_master_idx_row_count [of idx_two_rows] m by (auto simp: p)
qed

section \<open>Properties of the range collector\<close>

text \<open>Before the last date the loop lists the days of the range; at it, it raises.\<close>

lemma date_range_upto: "end_dt < max_ordinal \<Longrightarrow> date_range s end_dt = Inr [s..end_dt]"
proof (induction s end_dt rule: date_range.induct)
  case (1 cur end_dt)
  show ?case
  proof (cases "cur \<le> end_dt")
    case True
    then have "\<not> max_ordinal \<le> cur" using "1.prems" by simp
    then show ?thesis
      using True 1 by (simp add: upto_rec1 date_range.simps [of cur end_dt])
  next
    case False
    then show ?thesis by (simp add: date_range.simps [of cur end_dt])
  qed
qed

lemma date_range_overflow:
  "s \<le> end_dt \<Longrightarrow> max_ordinal \<le> end_dt \<Longrightarrow> date_range s end_dt = Inl OverflowError"
proof (induction s end_dt rule: date_range.induct)
  case (1 cur end_dt)
  show ?case
  proof (cases "max_ordinal \<le> cur")
    case True
    then show ?thesis using "1.prems" by (simp add: date_range.simps [of cur end_dt])
  next
    case False
    then have "cur + 1 \<le> end_dt" using "1.prems" by simp
    then have "date_range (cur + 1) end_dt = Inl OverflowError"
      using False "1.prems" by (intro "1.IH") auto
    then show ?thesis using False "1.prems" by (simp add: date_range.simps [of cur end_dt])
  qed
qed

lemma concat_collect_frames:
  "map normalize_cik (concat (collect_frames w ds)) = concat (map (day_rows w) ds)"
  by (induction ds) (simp_all add: day_rows_def split: sum.splits)

lemma list_form4_eq:
  assumes "end_dt < max_ordinal"
  shows "list_form4_filings_for_range w s end_dt = Inr (concat (map (day_rows w) [s..end_dt]))"
proof -
  have "list_form4_filings_for_range w s end_dt
          = Inr (map normalize_cik (concat (collect_frames w [s..end_dt])))"
    by (simp add: list_form4_filings_for_range_def date_range_upto [OF assms] Let_def)
  then show ?thesis by (simp add: concat_collect_frames)
qed

lemma day_rows_form4:
  "r \<in> set (day_rows w d) \<Longrightarrow> Form_Type r = Some ''4'' \<or> Form_Type r = Some ''4/A''"
  by (auto simp: day_rows_def normalize_cik_def with_date_def is_form4_def split: sum.splits)

lemma day_rows_day:
  "r \<in> set (day_rows w d) \<Longrightarrow> day r = strftime w ''%Y-%m-%d'' d"
  by (auto simp: day_rows_def normalize_cik_def with_date_def split: sum.splits)

text \<open>A range that ends on the last date of Python raises, whatever the network answers.\<close>

lemma range_overflows_at_last_date:
  "start_dt \<le> end_dt \<Longrightarrow> max_ordinal \<le> end_dt \<Longrightarrow>
   list_form4_filings_for_range w start_dt end_dt = Inl OverflowError"
  by (simp add: list_form4_filings_for_range_def date_range_overflow)

text \<open>
  Claim C7 as stated fails: for \<open>start_dt = end_dt\<close> = 9999-12-31 (ordinal 3652059) the
  function returns no table; the \<open>OverflowError\<close> of \<open>cur += timedelta(days=1)\<close> leaves it.
\<close>

theorem range_raises_at_last_date:
  "(3652059::int) \<le> 3652059 \<and>
   list_form4_filings_for_range demo_world 3652059 3652059 = Inl OverflowError"
  by (simp add: range_overflows_at_last_date max_ordinal_def)

text \<open>
  Claim C7, amended. For \<open>start_dt \<le> end_dt\<close> with \<open>end_dt\<close> before the last date of
  Python (9999-12-31) the function returns the concatenation, in ascending date order, of
  what each day of the range contributes: the rows of its index with Form Type 4 or 4/A
  (CIK zero-filled to ten characters). So every row of the result has Form Type 4 or 4/A
  and a \<open>date\<close> column that is the \<open>strftime\<close> of the day it was collected from, and no
  Form 4 row of a day that was fetched and parsed is left out.
\<close>

theorem range_is_union_of_days:
  assumes "start_dt \<le> end_dt" and "end_dt < max_ordinal"
  shows "\<exists>out. list_form4_filings_for_range w start_dt end_dt = Inr out
    \<and> out = concat (map (day_rows w) [start_dt..end_dt])
    \<and> (\<forall>r \<in> set out.
          (Form_Type r = Some ''4'' \<or> Form_Type r = Some ''4/A'') \<and>
          (\<exists>d \<in> {start_dt..end_dt}.
             r \<in> set (day_rows w d) \<and> day r = strftime w ''%Y-%m-%d'' d))
    \<and> (\<forall>d \<in> {start_dt..end_dt}. \<forall>df. fetch_daily_master_idx w d = Inr df \<longrightarrow>
          (\<forall>r0 \<in> set df. is_form4 r0 \<longrightarrow>
             normalize_cik (with_date (strftime w ''%Y-%m-%d'' d) r0) \<in> set out))"
proof (intro exI conjI ballI allI impI)
  let ?out = "concat (map (day_rows w) [start_dt..end_dt])"
  show "list_form4_filings_for_range w start_dt end_dt = Inr ?out"
    by (rule list_form4_eq [OF assms(2)])
  show "?out = concat (map (day_rows w) [start_dt..end_dt])" by (rule refl)
  {
    fix r assume "r \<in> set ?out"
    then obtain d where d: "d \<in> {start_dt..end_dt}" "r \<in> set (day_rows w d)"
      by auto
    show "Form_Type r = Some ''4'' \<or> Form_Type r = Some ''4/A''"
      using d(2) by (rule day_rows_form4)
    show "\<exists>d \<in> {start_dt..end_dt}. r \<in> set (day_rows w d) \<and> day r = strftime w ''%Y-%m-%d'' d"
      using d day_rows_day by blast
  }
  {
    fix d df r0
    assume "d \<in> {start_dt..end_dt}" "fetch_daily_master_idx w d = Inr df" "r0 \<in> set df"
      "is_form4 r0"
    then show "normalize_cik (with_date (strftime w ''%Y-%m-%d'' d) r0) \<in> set ?out"
      by (auto simp: day_rows_def intro!: bexI [of _ d])
  }
qed

lemma demo_range_value:
  "list_form4_filings_for_range demo_world 1 3 = Inr [filing_one, filing_two]"
  by code_simp

theorem range_is_union_of_days_witness:
  "(1::int) \<le> 3 \<and> 3 < max_ordinal \<and>
   list_form4_filings_for_range demo_world 1 3
     = Inr (concat (map (day_rows demo_world) [1..3])) \<and>
   list_form4_filings_for_range demo_world 1 3 = Inr [filing_one, filing_two]"
  using range_is_union_of_days [of 1 3 demo_world] demo_range_value
  by (simp add: max_ordinal_def)

section \<open>Properties of the document parser\<close>

lemma tx_free_filter:
  "tx_free e \<Longrightarrow> filter (\<lambda>x. tag x = ''nonDerivativeTable'') (subtree e) = []"
  "tx_free e \<Longrightarrow> filter (\<lambda>x. tag x = ''nonDerivativeTransaction'') (subtree e) = []"
  by (auto simp: tx_free_def filter_empty_conv)

lemma subtree_unfold: "subtree e = e # concat (map subtree (children e))"
  by (cases e) simp

lemma filter_concat_map: "filter P (concat (map f xs)) = concat (map (\<lambda>x. filter P (f x)) xs)"
  by (induction xs) simp_all

lemma concat_map_Nil: "(\<And>x. x \<in> set xs \<Longrightarrow> f x = []) \<Longrightarrow> concat (map f xs) = []"
  by (induction xs) simp_all

lemma concat_map_single:
  "concat (map (\<lambda>x. if P x then [x] else []) xs) = filter P xs"
  by (induction xs) simp_all

lemma table_child:
  assumes "tag g \<noteq> ''nonDerivativeTable''" "\<forall>d \<in> set (children g). tx_free d"
  shows "filter (\<lambda>x. tag x = ''nonDerivativeTable'') (subtree g) = []"
    and "filter (\<lambda>x. tag x = ''nonDerivativeTransaction'') (subtree g)
           = (if tag g = ''nonDerivativeTransaction'' then [g] else [])"
proof -
  have a: "filter (\<lambda>x. tag x = ''nonDerivativeTable'') (concat (map subtree (children g))) = []"
    unfolding filter_concat_map using assms(2) by (intro concat_map_Nil) (simp add: tx_free_filter)
  have b: "filter (\<lambda>x. tag x = ''nonDerivativeTransaction'') (concat (map subtree (children g))) = []"
    unfolding filter_concat_map using assms(2) by (intro concat_map_Nil) (simp add: tx_free_filter)
  show "filter (\<lambda>x. tag x = ''nonDerivativeTable'') (subtree g) = []"
    using assms(1) a by (subst subtree_unfold) simp
  show "filter (\<lambda>x. tag x = ''nonDerivativeTransaction'') (subtree g)
           = (if tag g = ''nonDerivativeTransaction'' then [g] else [])"
    using b by (subst subtree_unfold) simp
qed

lemma table_elem:
  assumes "tag c = ''nonDerivativeTable''"
    "\<forall>g \<in> set (children c). tag g \<noteq> ''nonDerivativeTable'' \<and> (\<forall>d \<in> set (children g). tx_free d)"
  shows "filter (\<lambda>x. tag x = ''nonDerivativeTable'') (subtree c) = [c]"
    and "filter (\<lambda>x. tag x = ''nonDerivativeTransaction'') (subtree c)
           = filter (\<lambda>x. tag x = ''nonDerivativeTransaction'') (children c)"
proof -
  have a: "filter (\<lambda>x. tag x = ''nonDerivativeTable'') (concat (map subtree (children c))) = []"
    unfolding filter_concat_map using assms(2) by (intro concat_map_Nil) (simp add: table_child)
  have "filter (\<lambda>x. tag x = ''nonDerivativeTransaction'') (concat (map subtree (children c)))
          = concat (map (\<lambda>g. if tag g = ''nonDerivativeTransaction'' then [g] else []) (children c))"
    unfolding filter_concat_map using assms(2) by (intro arg_cong [where f = concat] map_cong) (simp_all add: table_child)
  then have b: "filter (\<lambda>x. tag x = ''nonDerivativeTransaction'') (concat (map subtree (children c)))
          = filter (\<lambda>x. tag x = ''nonDerivativeTransaction'') (children c)"
    by (simp add: concat_map_single)
  show "filter (\<lambda>x. tag x = ''nonDerivativeTable'') (subtree c) = [c]"
    using assms(1) a by (subst subtree_unfold) simp
  show "filter (\<lambda>x. tag x = ''nonDerivativeTransaction'') (subtree c)
           = filter (\<lambda>x. tag x = ''nonDerivativeTransaction'') (children c)"
    using assms(1) b by (subst subtree_unfold) simp
qed

lemma select_step_Child: "select_step (Child nm) = (\<lambda>e. filter (\<lambda>c. tag c = nm) (children e))"
  by (rule ext) (simp add: select_step_def)

lemma select_step_Desc:
  "select_step (Desc nm) = (\<lambda>e. filter (\<lambda>c. tag c = nm) (concat (map subtree (children e))))"
  by (rule ext) (simp add: select_step_def)

lemma concat_map_filter_concat:
  "concat (map f (filter P (concat (map g xs))))
     = concat (map (\<lambda>c. concat (map f (filter P (g c)))) xs)"
  by (induction xs) simp_all

lemma findall_tx:
  assumes "form4_shape doc"
  shows "findall doc [Desc ''nonDerivativeTable'', Child ''nonDerivativeTransaction''] = tx_elements doc"
proof -
  have per: "concat (map (\<lambda>t. filter (\<lambda>x. tag x = ''nonDerivativeTransaction'') (children t))
                 (filter (\<lambda>x. tag x = ''nonDerivativeTable'') (subtree c)))
             = filter (\<lambda>x. tag x = ''nonDerivativeTransaction'') (subtree c)"
    if "c \<in> set (children doc)" for c
  proof (cases "tag c = ''nonDerivativeTable''")
    case True
    with assms that have
      "\<forall>g \<in> set (children c). tag g \<noteq> ''nonDerivativeTable'' \<and> (\<forall>d \<in> set (children g). tx_free d)"
      by (auto simp: form4_shape_def)
    from table_elem [OF True this] show ?thesis by simp
  next
    case False
    with assms that have "tx_free c" by (auto simp: form4_shape_def)
    then show ?thesis by (simp add: tx_free_filter)
  qed
  have "findall doc [Desc ''nonDerivativeTable'', Child ''nonDerivativeTransaction'']
          = concat (map (\<lambda>t. filter (\<lambda>x. tag x = ''nonDerivativeTransaction'') (children t))
              (filter (\<lambda>x. tag x = ''nonDerivativeTable'') (concat (map subtree (children doc)))))"
    by (simp add: findall_def select_step_Child select_step_Desc)
  also have "\<dots> = concat (map (\<lambda>c. concat (map (\<lambda>t. filter (\<lambda>x. tag x = ''nonDerivativeTransaction'') (children t))
                 (filter (\<lambda>x. tag x = ''nonDerivativeTable'') (subtree c)))) (children doc))"
    by (rule concat_map_filter_concat)
  also have "\<dots> = concat (map (\<lambda>c. filter (\<lambda>x. tag x = ''nonDerivativeTransaction'') (subtree c)) (children doc))"
    by (intro arg_cong [where f = concat] map_cong refl per)
  also have "\<dots> = tx_elements doc"
    using assms unfolding tx_elements_def
    by (subst (2) subtree_unfold) (simp add: filter_concat_map form4_shape_def)
  finally show ?thesis .
qed


lemma float_or_none_bind: "float_or_none w v = Option.bind v (to_float w)"
  by (cases v) (simp_all add: float_or_none_def split: option.splits)

lemma findtext_first_text: "or_empty (findtext doc [Desc nm] (Some [])) = first_text doc nm"
  by (simp add: findtext_def findall_def select_step_Desc first_text_def or_empty_def
      split: list.splits option.splits)

text \<open>
  Claim C8. For a document that \<open>ET.fromstring\<close> parses and that has the shape of a
  Form 4, \<open>parse_form4_xml\<close> returns exactly one transaction record per
  nonDerivativeTransaction element, in document order. Each record carries the issuer
  trading symbol and issuer name of the document (the stripped text of the first such
  element) with the transaction code, share count, price, date and ownership type of its
  element; share count and price are the float of the text where \<open>float\<close> accepts it and
  \<open>None\<close> where the element is absent or \<open>float\<close> raises.
\<close>

theorem parse_form4_xml_records:
  assumes "xml_fromstring w xml_bytes = Inr doc" and "form4_shape doc"
  shows "\<exists>parsed. parse_form4_xml w xml_bytes = Inr parsed \<and>
      doc_issuerSymbol parsed = strip (first_text doc ''issuerTradingSymbol'') \<and>
      doc_issuerName parsed = strip (first_text doc ''issuerName'') \<and>
      length (transactions parsed) = length (tx_elements doc) \<and>
      (\<forall>i < length (tx_elements doc).
         issuerSymbol (transactions parsed ! i) = doc_issuerSymbol parsed \<and>
         issuerName (transactions parsed ! i) = doc_issuerName parsed \<and>
         transactionCode (transactions parsed ! i)
           = strip (or_empty (findtext (tx_elements doc ! i)
                                [Child ''transactionCoding'', Child ''transactionCode''] (Some []))) \<and>
         shares (transactions parsed ! i)
           = Option.bind (findtext (tx_elements doc ! i)
               [Child ''transactionAmounts'', Child ''transactionShares'', Child ''value''] None)
               (to_float w) \<and>
         price (transactions parsed ! i)
           = Option.bind (findtext (tx_elements doc ! i)
               [Child ''transactionAmounts'', Child ''transactionPricePerShare'', Child ''value''] None)
               (to_float w) \<and>
         date (transactions parsed ! i)
           = findtext (tx_elements doc ! i) [Child ''transactionDate'', Child ''value''] None \<and>
         ownership (transactions parsed ! i)
           = findtext (tx_elements doc ! i)
               [Child ''ownershipNature'', Child ''directOrIndirectOwnership'', Child ''value''] None)"
  using assms
  by (simp add: parse_form4_xml_def parse_form4_root_def Let_def findall_tx findtext_first_text
      tx_row_def float_or_none_bind)

lemma demo_shape: "form4_shape demo_doc"
  by code_simp

lemma demo_txs: "tx_elements demo_doc = [demo_tx1, demo_tx2]"
  by code_simp

lemma demo_parse:
  "parse_form4_xml demo_world ''doc'' =
  Inr \<lparr>doc_issuerSymbol = ''AAA'', doc_issuerName = ''Alpha Inc'',
        transactions =
          [\<lparr>issuerSymbol = ''AAA'', issuerName = ''Alpha Inc'',
              transactionCode = ''P'', shares = Some (Finite 100),
              price = Some (Finite (5 / 2)), date = Some ''2025-01-02'',
              ownership = Some ''D''\<rparr>,
           \<lparr>issuerSymbol = ''AAA'', issuerName = ''Alpha Inc'',
              transactionCode = ''S'', shares = None, price = None,
              date = None, ownership = None\<rparr>]\<rparr>"
  by code_simp

theorem parse_form4_xml_records_witness:
  "xml_fromstring demo_world ''doc'' = Inr demo_doc \<and> form4_shape demo_doc \<and>
   tx_elements demo_doc = [demo_tx1, demo_tx2] \<and>
   (\<exists>parsed. parse_form4_xml demo_world ''doc'' = Inr parsed \<and>
      length (transactions parsed) = 2 \<and>
      map shares (transactions parsed) = [Some (Finite 100), None] \<and>
      map transactionCode (transactions parsed) = [''P'', ''S''])"
proof -
  have x: "xml_fromstring demo_world ''doc'' = Inr demo_doc" by (simp add: demo_world_def)
  show ?thesis
    using parse_form4_xml_records [OF x demo_shape] x demo_shape demo_txs demo_parse by auto
qed

section \<open>Properties of the transactions table\<close>

text \<open>One turn of the loop, by what the filing contributes.\<close>

lemma summary_loop_step:
  assumes "cnt < m"
  shows "summary_loop w m rws cnt (r # rs) =
     (if locator_raises w r
      then (case find_form4_xml_url w (zfill 10 (str_cell (CIK r))) (Filename r) of
              Inl e \<Rightarrow> Inl e | Inr u \<Rightarrow> Inl ValueError)
      else case filing_doc w r of
             None \<Rightarrow> summary_loop w m rws cnt rs
           | Some txs \<Rightarrow> summary_loop w m (rws @ txs) (cnt + 1) rs)"
  using assms
  by (simp add: locator_raises_def filing_doc_def Let_def split: sum.splits option.splits)

lemma filing_doc_raises: "locator_raises w r \<Longrightarrow> filing_doc w r = None"
  by (simp add: locator_raises_def filing_doc_def split: sum.splits)

lemma summary_loop_returns:
  assumes "summary_loop w m rws cnt rs = Inr (rws', cnt')"
  shows "rws' = rws @ concat (take (nat (m - cnt)) (List.map_filter (filing_doc w) rs))"
  using assms
proof (induction rs arbitrary: rws cnt)
  case Nil
  then show ?case by (simp add: map_filter_def)
next
  case (Cons r rs)
  show ?case
  proof (cases "cnt < m")
    case False
    then show ?thesis using Cons.prems by simp
  next
    case True
    then have pos: "nat (m - cnt) = Suc (nat (m - (cnt + 1)))" by simp
    have nr: "\<not> locator_raises w r"
      using Cons.prems True
      by (auto simp: summary_loop_step [OF True] simp del: summary_loop.simps split: sum.splits)
    show ?thesis
    proof (cases "filing_doc w r")
      case None
      then have "summary_loop w m rws cnt rs = Inr (rws', cnt')"
        using Cons.prems nr by (simp add: summary_loop_step [OF True] del: summary_loop.simps)
      from Cons.IH [OF this] show ?thesis by (simp add: None)
    next
      case (Some txs)
      then have "summary_loop w m (rws @ txs) (cnt + 1) rs = Inr (rws', cnt')"
        using Cons.prems nr by (simp add: summary_loop_step [OF True] del: summary_loop.simps)
      from Cons.IH [OF this] show ?thesis
        by (simp add: Some pos del: nat_diff_distrib')
    qed
  qed
qed

lemma summary_loop_no_raise:
  assumes "\<forall>r \<in> set rs. \<not> locator_raises w r"
  shows "\<exists>res. summary_loop w m rws cnt rs = Inr res"
  using assms
proof (induction rs arbitrary: rws cnt)
  case Nil
  show ?case by simp
next
  case (Cons r rs)
  show ?case
  proof (cases "cnt < m")
    case False
    then show ?thesis by simp
  next
    case True
    show ?thesis using Cons
      by (cases "filing_doc w r")
         (simp_all add: summary_loop_step [OF True] del: summary_loop.simps)
  qed
qed

text \<open>
  Claim C10. For \<open>max_filings \<ge> 0\<close>, whenever \<open>build_activity_summary\<close> returns a table,
  its rows are the transactions of the first \<open>max_filings\<close> filings, in table order, whose
  document was located, fetched and parsed: they come from at most \<open>max_filings\<close> parsed
  documents, and a filing that was skipped takes no place among them. The function does
  return a table whenever the locator raises on no filing.
\<close>

theorem build_activity_summary_limit:
  assumes "0 \<le> max_filings"
  shows "(\<forall>out. build_activity_summary w filings_df max_filings = Inr out \<longrightarrow>
            out = map (cleanup w)
                    (concat (take (nat max_filings) (List.map_filter (filing_doc w) filings_df))))
       \<and> ((\<forall>r \<in> set filings_df. \<not> locator_raises w r) \<longrightarrow>
            (\<exists>out. build_activity_summary w filings_df max_filings = Inr out))
       \<and> length (take (nat max_filings) (List.map_filter (filing_doc w) filings_df))
            \<le> nat max_filings"
proof (intro conjI allI impI)
  fix out
  assume "build_activity_summary w filings_df max_filings = Inr out"
  then obtain rws cnt where l: "summary_loop w max_filings [] 0 filings_df = Inr (rws, cnt)"
    and o: "out = map (cleanup w) rws"
    by (auto simp: build_activity_summary_def split: sum.splits if_splits)
  from summary_loop_returns [OF l] o
  show "out = map (cleanup w)
                (concat (take (nat max_filings) (List.map_filter (filing_doc w) filings_df)))"
    by simp
next
  assume "\<forall>r \<in> set filings_df. \<not> locator_raises w r"
  from summary_loop_no_raise [OF this, of max_filings "[]" 0]
  show "\<exists>out. build_activity_summary w filings_df max_filings = Inr out"
    by (auto simp: build_activity_summary_def)
next
  show "length (take (nat max_filings) (List.map_filter (filing_doc w) filings_df))
          \<le> nat max_filings" by simp
qed

lemma demo_locator_one: "\<not> locator_raises demo_world filing_one"
  by code_simp

lemma demo_locator_three: "\<not> locator_raises demo_world filing_three"
  by code_simp

lemma demo_docs:
  "List.map_filter (filing_doc demo_world) [filing_three, filing_one, filing_one]
     = [transactions (parse_form4_root demo_world demo_doc),
        transactions (parse_form4_root demo_world demo_doc)]"
  by code_simp

lemma demo_rows:
  "map (cleanup demo_world) (transactions (parse_form4_root demo_world demo_doc))
     = [\<lparr> issuerSymbol = ''AAA'', issuerName = ''Alpha Inc'', transactionCode = ''P'',
           shares = Some (Finite 100), price = Some (Finite (5 / 2)), date = Some 20090,
           ownership = Some ''D'' \<rparr>,
        \<lparr> issuerSymbol = ''AAA'', issuerName = ''Alpha Inc'', transactionCode = ''S'',
           shares = None, price = None, date = None, ownership = None \<rparr>]"
  by code_simp

theorem build_activity_summary_limit_witness:
  "(0::int) \<le> 1 \<and>
   \<not> locator_raises demo_world filing_three \<and> \<not> locator_raises demo_world filing_one \<and>
   build_activity_summary demo_world [filing_three, filing_one, filing_one] 1
     = Inr [\<lparr> issuerSymbol = ''AAA'', issuerName = ''Alpha Inc'', transactionCode = ''P'',
               shares = Some (Finite 100), price = Some (Finite (5 / 2)), date = Some 20090,
               ownership = Some ''D'' \<rparr>,
            \<lparr> issuerSymbol = ''AAA'', issuerName = ''Alpha Inc'', transactionCode = ''S'',
               shares = None, price = None, date = None, ownership = None \<rparr>]"
  using build_activity_summary_limit [of 1 demo_world "[filing_three, filing_one, filing_one]",
      unfolded demo_docs]
    demo_locator_one demo_locator_three
  by (auto simp: demo_rows)

subsection \<open>A filing whose name cannot be parsed\<close>

lemma bad_name_unparsable:
  "extract_accession_and_dirpath (Filename filing_bad_name) = Inl ValueError"
  by code_simp

text \<open>
  Claim C1, at a table of one filing whose Filename matches neither pattern: whatever the
  network answers, \<open>build_activity_summary\<close> does not return a table; the \<open>ValueError\<close>
  of \<open>_extract_accession_and_dirpath\<close> leaves it, the call of \<open>find_form4_xml_url\<close>
  standing outside the \<open>try\<close>.
\<close>

theorem build_activity_summary_raises_on_bad_filename:
  "build_activity_summary w [filing_bad_name] 300 = Inl ValueError"
  by (simp add: build_activity_summary_def find_form4_xml_url_def Let_def bad_name_unparsable)

section \<open>The input of the aggregation is left as it was\<close>

lemma table_at_append: "r < length s \<Longrightarrow> table_at (s @ xs) r = table_at s r"
  by (simp add: table_at_def nth_append)

lemma table_at_lt: "table_at s r = Some t \<Longrightarrow> r < length s"
  by (simp add: table_at_def split: if_splits)

lemma st_select_Some:
  "table_at s r = Some t \<Longrightarrow>
   st_select s r code = Some (length s, s @ [Table (filter (\<lambda>x. transactionCode x = code) t)])"
  by (simp add: st_select_def alloc_def)

lemma st_groupby_sum_Some:
  "table_at s r = Some t \<Longrightarrow>
   st_groupby_sum s r = Some (length s, s @ [Series_float (groupby_sum t)])"
  by (simp add: st_groupby_sum_def alloc_def)

lemma st_groupby_count_Some:
  "table_at s r = Some t \<Longrightarrow>
   st_groupby_count s r = Some (length s, s @ [Series_count (groupby_count t)])"
  by (simp add: st_groupby_count_def alloc_def)

lemma table_at_last: "table_at (s @ [Table t]) (length s) = Some t"
  by (simp add: table_at_def)

text \<open>
  Claim C9. \<open>aggregate_by_issuer\<close> leaves its input unchanged: after the call the
  reference \<open>transactions\<close> holds the table it held before, rows and values, and so does
  every other object that was in the store; the result is a new object.
\<close>

theorem aggregate_leaves_input_unchanged:
  assumes "table_at s r = Some t"
  shows "\<exists>res s'. aggregate_by_issuer_st s r = Some (res, s') \<and>
           (\<forall>a < length s. s' ! a = s ! a) \<and>
           table_at s' r = Some t \<and>
           length s \<le> res \<and> res < length s' \<and>
           s' ! res = Aggregate (aggregate_by_issuer t)"
proof (cases "t = []")
  case True
  then show ?thesis
    using assms table_at_lt [OF assms]
    by (simp add: aggregate_by_issuer_st_def alloc_def aggregate_by_issuer_def nth_append
        table_at_append)
next
  case False
  let ?P = "Table (filter (\<lambda>x. transactionCode x = ''P'') t)"
  let ?S = "Table (filter (\<lambda>x. transactionCode x = ''S'') t)"
  let ?bs = "groupby_sum (filter (\<lambda>x. transactionCode x = ''P'') t)"
  let ?ss = "groupby_sum (filter (\<lambda>x. transactionCode x = ''S'') t)"
  let ?s1 = "s @ [?P]"
  let ?s2 = "?s1 @ [Series_float ?bs]"
  let ?s3 = "?s2 @ [?S]"
  let ?s4 = "?s3 @ [Series_float ?ss]"
  let ?s5 = "?s4 @ [Series_float (groupby_sum t)]"
  let ?s6 = "?s5 @ [Series_count (groupby_count t)]"
  let ?res = "Aggregate (aggregate_by_issuer t)"
  have r: "r < length s" by (rule table_at_lt [OF assms])
  have 1: "st_select s r ''P'' = Some (length s, ?s1)" by (rule st_select_Some [OF assms])
  have 2: "st_groupby_sum ?s1 (length s) = Some (length ?s1, ?s2)"
    by (rule st_groupby_sum_Some [OF table_at_last])
  have t2: "table_at ?s2 r = Some t" using r assms by (simp add: table_at_def nth_append)
  have 3: "st_select ?s2 r ''S'' = Some (length ?s2, ?s3)" by (rule st_select_Some [OF t2])
  have 4: "st_groupby_sum ?s3 (length ?s2) = Some (length ?s3, ?s4)"
    by (rule st_groupby_sum_Some [OF table_at_last])
  have t4: "table_at ?s4 r = Some t" using r assms by (simp add: table_at_def nth_append)
  have 5: "st_groupby_sum ?s4 r = Some (length ?s4, ?s5)" by (rule st_groupby_sum_Some [OF t4])
  have t5: "table_at ?s5 r = Some t" using r assms by (simp add: table_at_def nth_append)
  have 6: "st_groupby_count ?s5 r = Some (length ?s5, ?s6)" by (rule st_groupby_count_Some [OF t5])
  have 7: "st_concat_sort ?s6 (length ?s5) (length ?s4) (length ?s1) (length ?s3)
             = Some (length ?s6, ?s6 @ [?res])"
    using False
    by (simp add: st_concat_sort_def series_count_at_def series_float_at_def nth_append alloc_def
        aggregate_by_issuer_def Let_def)
  have run: "aggregate_by_issuer_st s r = Some (length ?s6, ?s6 @ [?res])"
    using False assms 1 2 3 4 5 6 7
    by (simp add: aggregate_by_issuer_st_def)
  show ?thesis
    unfolding run using r assms
    by (simp add: nth_append table_at_def)
qed

theorem aggregate_leaves_input_unchanged_witness:
  "table_at demo_store 1 = Some [tx_buy, tx_sell, tx_no_shares] \<and>
   (\<exists>res s'. aggregate_by_issuer_st demo_store 1 = Some (res, s') \<and> s' ! 0 = demo_store ! 0 \<and>
       table_at s' 1 = Some [tx_buy, tx_sell, tx_no_shares])"
proof -
  have t: "table_at demo_store 1 = Some [tx_buy, tx_sell, tx_no_shares]"
    by (simp add: demo_store_def table_at_def)
  have l: "0 < length demo_store" by (simp add: demo_store_def)
  show ?thesis
    using aggregate_leaves_input_unchanged [OF t] t l by blast
qed

end
